theory Spec2Isabelle
  imports Main "HOL-Library.AList"
begin

section \<open>debug\_calls: the caller locator and the argument-reporting wrapper\<close>

text \<open>
  A shallow embedding of \<^verbatim>\<open>src/debug_calls/decorators.py\<close>. Python values are a type
  variable \<open>'v\<close>; dictionaries are association lists in insertion order; every
  \<^verbatim>\<open>print\<close> call appends one line to a list of printed lines; an exception is the
  \<open>Inl\<close> branch of a sum.
\<close>

subsection \<open>Dictionaries in insertion order\<close>

text \<open>
  \<^verbatim>\<open>d[k] = v\<close> on a Python dict overwrites the value of an existing key in place and
  appends a new key at the end: that is \<open>AList.update\<close>.
  \<^verbatim>\<open>d.update(pairs)\<close> stores the pairs one after the other.
\<close>

type_synonym ('k, 'a) dict = "('k \<times> 'a) list"

abbreviation setitem :: "'k \<Rightarrow> 'a \<Rightarrow> ('k, 'a) dict \<Rightarrow> ('k, 'a) dict" where
  "setitem \<equiv> AList.update"

fun dict_update :: "('k \<times> 'a) list \<Rightarrow> ('k, 'a) dict \<Rightarrow> ('k, 'a) dict" where
  "dict_update [] d = d"
| "dict_update ((k, v) # kvs) d = dict_update kvs (setitem k v d)"

subsection \<open>Exceptions\<close>

datatype exn = ValueError | TypeError | Exception string

text \<open>
  \<^verbatim>\<open>max(len(name) for name in names)\<close>: the builtin raises \<^verbatim>\<open>ValueError\<close> on an empty
  iterable.
\<close>

fun max_len :: "string list \<Rightarrow> exn + nat" where
  "max_len [] = Inl ValueError"
| "max_len (n # ns) = Inr (fold (\<lambda>m acc. max acc (length m)) ns (length n))"

subsection \<open>The caller locator\<close>

text \<open>
  One entry of \<^verbatim>\<open>inspect.stack()\<close>. The loop of \<^verbatim>\<open>get_caller_info\<close> binds the
  filename, the line number and the function name of a frame and discards the other three
  components, which the record leaves out.
\<close>

record FrameInfo =
  filename :: string
  lineno :: int
  function_name :: string

type_synonym caller_info = "string \<times> int \<times> string \<times> bool"

text \<open>
  The \<^verbatim>\<open>for i, ... in enumerate(call_stack)\<close> loop: \<open>i\<close> is the index of the frame at
  the head of the remaining list.
\<close>

fun caller_loop :: "(string \<times> string) list \<Rightarrow> nat \<Rightarrow> FrameInfo list \<Rightarrow> caller_info" where
  "caller_loop frames_to_skip i [] = ('''', 0, '''', True)"
| "caller_loop frames_to_skip i (fr # rest) =
     (if (filename fr, function_name fr) \<in> set frames_to_skip
      then caller_loop frames_to_skip (i + 1) rest
      else (filename fr, lineno fr, function_name fr, i > 0))"

text \<open>
  \<open>stack\<close> is what \<^verbatim>\<open>inspect.stack()\<close> returns inside \<^verbatim>\<open>get_caller_info\<close>: the frame
  of \<^verbatim>\<open>get_caller_info\<close> itself, the frame of the wrapper, then the callers outward.
\<close>

definition get_caller_info :: "(string \<times> string) list \<Rightarrow> FrameInfo list \<Rightarrow> caller_info" where
  "get_caller_info frames_to_skip stack =
     (let call_stack = drop 2 stack in caller_loop frames_to_skip 0 call_stack)"

text \<open>The default skip list, for the two installation prefixes of \<^verbatim>\<open>sysconfig\<close>.\<close>

definition FRAMES_TO_SKIP :: "string \<Rightarrow> string \<Rightarrow> (string \<times> string) list" where
  "FRAMES_TO_SKIP STDLIB_PREFIX SITE_PACKAGES_PREFIX =
     [(STDLIB_PREFIX @ ''/contextlib.py'', ''inner''),
      (SITE_PACKAGES_PREFIX @ ''/celery/app/task.py'', ''__call__''),
      (SITE_PACKAGES_PREFIX @ ''/celery/local.py'', ''__call__''),
      (SITE_PACKAGES_PREFIX @ ''/ddtrace/tracer.py'', ''func_wrapper'')]"

definition skipped :: "(string \<times> string) list \<Rightarrow> FrameInfo \<Rightarrow> bool" where
  "skipped frames_to_skip fr \<longleftrightarrow> (filename fr, function_name fr) \<in> set frames_to_skip"

subsection \<open>Signatures and callables\<close>

datatype kind =
  POSITIONAL_ONLY | POSITIONAL_OR_KEYWORD | VAR_POSITIONAL | KEYWORD_ONLY | VAR_KEYWORD

text \<open>
  An \<^verbatim>\<open>inspect.Parameter\<close>: \<open>default_value\<close> is \<^verbatim>\<open>param.default\<close>, which is the object
  \<^verbatim>\<open>Parameter.empty\<close> when the parameter declares no default. The decorator stores it as
  it is.
\<close>

record 'v Parameter =
  kind :: kind
  default_value :: 'v

text \<open>
  The decorated callable \<^verbatim>\<open>__c\<close>: \<^verbatim>\<open>__module__\<close>, \<^verbatim>\<open>__qualname__\<close>, the ordered
  mapping \<^verbatim>\<open>signature(__c).parameters\<close> and what calling it with positional and keyword
  arguments gives: a result, or the exception it raises.
\<close>

record ('v, 'r) callable =
  c_module :: string
  c_qualname :: string
  parameters :: "(string, 'v Parameter) dict"
  call :: "'v list \<Rightarrow> (string, 'v) dict \<Rightarrow> exn + 'r"

subsection \<open>Decoration time\<close>

text \<open>The five variables that the loop over the parameters fills.\<close>

record 'v tables =
  param_to_default :: "(string, 'v \<times> string) dict"
  parg_names :: "string list"
  kwarg_names :: "string list"
  star_pargs_name :: "string option"
  star_kwargs_name :: "string option"

definition empty_tables :: "'v tables" where
  "empty_tables =
     \<lparr>param_to_default = [], parg_names = [], kwarg_names = [],
      star_pargs_name = None, star_kwargs_name = None\<rparr>"

text \<open>One iteration of \<^verbatim>\<open>for name, param in parameters.items()\<close>.\<close>

fun scan_parameter :: "string \<times> 'v Parameter \<Rightarrow> 'v tables \<Rightarrow> 'v tables" where
  "scan_parameter (name, param) t =
     (if kind param = POSITIONAL_ONLY then
        t\<lparr>param_to_default := setitem name (default_value param, ''d'') (param_to_default t),
          parg_names := parg_names t @ [name]\<rparr>
      else if kind param = POSITIONAL_OR_KEYWORD then
        t\<lparr>param_to_default := setitem name (default_value param, ''d'') (param_to_default t),
          parg_names := parg_names t @ [name],
          kwarg_names := kwarg_names t @ [name]\<rparr>
      else if kind param = KEYWORD_ONLY then
        t\<lparr>param_to_default := setitem name (default_value param, ''d'') (param_to_default t),
          kwarg_names := kwarg_names t @ [name]\<rparr>
      else if kind param = VAR_POSITIONAL then
        t\<lparr>star_pargs_name := Some name\<rparr>
      else if kind param = VAR_KEYWORD then
        t\<lparr>star_kwargs_name := Some name\<rparr>
      else t)"

definition scan_parameters :: "(string, 'v Parameter) dict \<Rightarrow> 'v tables" where
  "scan_parameters ps = fold scan_parameter ps empty_tables"

text \<open>
  What the closure \<^verbatim>\<open>wrapper\<close> captures: the callable \<^verbatim>\<open>__c\<close> (the field \<open>callee\<close>), the
  tables and \<^verbatim>\<open>pad_length\<close>.
\<close>

record ('v, 'r) closure =
  callee :: "('v, 'r) callable"
  tables :: "'v tables"
  pad_length :: nat

text \<open>
  \<^verbatim>\<open>debug_calls(__c)\<close>: the exception of \<^verbatim>\<open>max\<close>, or the wrapper. Iterating over a dict
  gives its keys.
\<close>

definition debug_calls :: "('v, 'r) callable \<Rightarrow> exn + ('v, 'r) closure" where
  "debug_calls c =
     (let t = scan_parameters (parameters c) in
      case max_len (map fst (param_to_default t)) of
        Inl e \<Rightarrow> Inl e
      | Inr pad \<Rightarrow> Inr \<lparr>callee = c, tables = t, pad_length = pad\<rparr>)"

subsection \<open>Call time: classifying the arguments\<close>

text \<open>The loop \<^verbatim>\<open>for name, value in kwargs.items()\<close> over the two dicts it writes.\<close>

fun kwargs_loop ::
  "string list \<Rightarrow> (string \<times> 'v) list \<Rightarrow> (string, 'v \<times> string) dict \<times> (string, 'v) dict \<Rightarrow>
   (string, 'v \<times> string) dict \<times> (string, 'v) dict" where
  "kwargs_loop kwn [] (arg_to_value, star_kwargs) = (arg_to_value, star_kwargs)"
| "kwargs_loop kwn ((name, val) # rest) (arg_to_value, star_kwargs) =
     (if name \<in> set kwn
      then kwargs_loop kwn rest (setitem name (val, ''k'') arg_to_value, star_kwargs)
      else kwargs_loop kwn rest (arg_to_value, setitem name val star_kwargs))"

text \<open>
  \<^verbatim>\<open>x in d.items()\<close>. The items view of a dict holds (key, value) pairs: an object that
  is not a pair is not in it, and a pair is in it when the dict maps its key to its value.
  The wrapper asks it about a parameter name, which is a string.
\<close>

datatype 'v pyobj = Str string | Item string 'v

fun items_contains :: "(string, 'v) dict \<Rightarrow> 'v pyobj \<Rightarrow> bool" where
  "items_contains d (Str s) = False"
| "items_contains d (Item k v) = (map_of d k = Some v)"

text \<open>\<^verbatim>\<open>itertools.product(pargs, "p")\<close>: every argument paired with every character.\<close>

definition itertools_product :: "'v list \<Rightarrow> string \<Rightarrow> ('v \<times> string) list" where
  "itertools_product xs s = concat (map (\<lambda>x. map (\<lambda>ch. (x, [ch])) s) xs)"

record 'v binding =
  arg_to_value :: "(string, 'v \<times> string) dict"
  star_kwargs :: "(string, 'v) dict"
  remaining_parg_names :: "string list"
  star_pargs :: "'v list"

text \<open>Lines 107 to 121 of the source: the local variables of one invocation.\<close>

definition bind_arguments :: "'v tables \<Rightarrow> 'v list \<Rightarrow> (string, 'v) dict \<Rightarrow> 'v binding" where
  "bind_arguments t pargs kwargs =
     (let (a1, sk) = kwargs_loop (kwarg_names t) kwargs (param_to_default t, []);
          remaining = filter (\<lambda>name. \<not> items_contains kwargs (Str name)) (parg_names t);
          a2 = dict_update (zip remaining (itertools_product pargs ''p'')) a1
      in \<lparr>arg_to_value = a2, star_kwargs = sk, remaining_parg_names = remaining,
          star_pargs = drop (length remaining) pargs\<rparr>)"

subsection \<open>Call time: printing and forwarding\<close>

text \<open>
  Of the Python runtime the wrapper uses \<^verbatim>\<open>repr\<close>, which gives the text of a value or
  raises what the \<^verbatim>\<open>__repr__\<close> of the value raises; \<^verbatim>\<open>object.__repr__\<close>, which always
  gives a text; the call stack that \<^verbatim>\<open>inspect.stack()\<close> returns inside
  \<^verbatim>\<open>get_caller_info\<close>; and the default value of \<^verbatim>\<open>frames_to_skip\<close>.
\<close>

record 'v runtime =
  repr :: "'v \<Rightarrow> exn + string"
  object_repr :: "'v \<Rightarrow> string"
  stack :: "FrameInfo list"
  frames_to_skip :: "(string \<times> string) list"

definition BOLD_CODE :: string where "BOLD_CODE = [CHR 0x1B] @ ''[1m''"

definition UNDERLINE_CODE :: string where "UNDERLINE_CODE = [CHR 0x1B] @ ''[4m''"

definition END_CODE :: string where "END_CODE = [CHR 0x1B] @ ''[0m''"

text \<open>Decimal digits of an integer, as an f-string writes it.\<close>

function str_nat :: "nat \<Rightarrow> string" where
  "str_nat n =
     (if n < 10 then [''0123456789'' ! n]
      else str_nat (n div 10) @ [''0123456789'' ! (n mod 10)])"
  by pat_completeness auto
termination
  by (relation "measure id") auto

definition str_int :: "int \<Rightarrow> string" where
  "str_int i = (if i < 0 then ''-'' @ str_nat (nat (- i)) else str_nat (nat i))"

text \<open>The format specification \<^verbatim>\<open>{name:<{width}}\<close>: left-aligned, padded with spaces.\<close>

definition ljust :: "nat \<Rightarrow> string \<Rightarrow> string" where
  "ljust width s = s @ replicate (width - length s) CHR '' ''"

text \<open>
  \<^verbatim>\<open>unittest.util.safe_repr(obj, short)\<close> of the standard library, whose
  \<^verbatim>\<open>_MAX_LENGTH\<close> is 80.
\<close>

definition safe_repr :: "'v runtime \<Rightarrow> 'v \<Rightarrow> bool \<Rightarrow> string" where
  "safe_repr rt obj short =
     (let result = (case repr rt obj of Inr s \<Rightarrow> s | Inl e \<Rightarrow> object_repr rt obj) in
      if \<not> short \<or> length result < 80 then result
      else take 80 result @ '' [truncated]...'')"

text \<open>
  How an f-string writes a tuple: the \<^verbatim>\<open>repr\<close> of its elements, from the left, in
  parentheses. The first \<^verbatim>\<open>repr\<close> that raises ends it.
\<close>

fun str_join :: "string \<Rightarrow> string list \<Rightarrow> string" where
  "str_join sep [] = []"
| "str_join sep [s] = s"
| "str_join sep (s # ss) = s @ sep @ str_join sep ss"

fun repr_all :: "('v \<Rightarrow> exn + string) \<Rightarrow> 'v list \<Rightarrow> exn + string list" where
  "repr_all rp [] = Inr []"
| "repr_all rp (x # xs) =
     (case rp x of
        Inl e \<Rightarrow> Inl e
      | Inr s \<Rightarrow> (case repr_all rp xs of Inl e \<Rightarrow> Inl e | Inr ss \<Rightarrow> Inr (s # ss)))"

definition str_tuple :: "('v \<Rightarrow> exn + string) \<Rightarrow> 'v list \<Rightarrow> exn + string" where
  "str_tuple rp xs =
     (case repr_all rp xs of
        Inl e \<Rightarrow> Inl e
      | Inr ss \<Rightarrow>
          Inr (case ss of [s] \<Rightarrow> ''('' @ s @ '',)'' | _ \<Rightarrow> ''('' @ str_join '', '' ss @ '')''))"

definition header_lines :: "('v, 'r) callable \<Rightarrow> caller_info \<Rightarrow> string list" where
  "header_lines c info =
     (case info of (file, line, caller_name, frames_skipped) \<Rightarrow>
        [[],
         BOLD_CODE @ UNDERLINE_CODE @ c_module c @ ''.'' @ c_qualname c @ END_CODE,
         ''Called by '' @ caller_name @ '' at '' @ file @ '':'' @ str_int line @ '' ''
           @ (if frames_skipped then ''(skipped decorators)'' else [])])"

definition named_line :: "'v runtime \<Rightarrow> nat \<Rightarrow> string \<times> 'v \<times> string \<Rightarrow> string" where
  "named_line rt pad entry =
     (case entry of (name, val, input_type) \<Rightarrow>
        ''('' @ input_type @ '') '' @ ljust pad name @ '': '' @ safe_repr rt val True)"

text \<open>
  Lines 125 to 127 and 131 to 132 of the source write the values with \<^verbatim>\<open>repr\<close> itself.
  Each of the following gives the lines it printed and the exception that ended it, if
  one did: the heading of line 126 is printed before the tuple of line 127 is written,
  and the lines of the loop of line 131 are printed one by one.
\<close>

definition star_pargs_lines ::
  "('v \<Rightarrow> exn + string) \<Rightarrow> string option \<Rightarrow> 'v list \<Rightarrow> string list \<times> exn option" where
  "star_pargs_lines rp name_opt extra =
     (case name_opt of
        None \<Rightarrow> ([], None)
      | Some n \<Rightarrow>
          (case str_tuple rp extra of
             Inl e \<Rightarrow> (['' *'' @ n @ '':''], Some e)
           | Inr s \<Rightarrow> (['' *'' @ n @ '':'', ''     '' @ s], None)))"

definition star_kwarg_line :: "('v \<Rightarrow> exn + string) \<Rightarrow> nat \<Rightarrow> string \<times> 'v \<Rightarrow> exn + string" where
  "star_kwarg_line rp pad entry =
     (case entry of (name, val) \<Rightarrow>
        (case rp val of
           Inl e \<Rightarrow> Inl e
         | Inr s \<Rightarrow> Inr (''     '' @ ljust pad name @ '': '' @ s)))"

fun star_kwargs_lines ::
  "('v \<Rightarrow> exn + string) \<Rightarrow> nat \<Rightarrow> (string \<times> 'v) list \<Rightarrow> string list \<times> exn option" where
  "star_kwargs_lines rp pad [] = ([], None)"
| "star_kwargs_lines rp pad (entry # rest) =
     (case star_kwarg_line rp pad entry of
        Inl e \<Rightarrow> ([], Some e)
      | Inr l \<Rightarrow> (case star_kwargs_lines rp pad rest of (ls, r) \<Rightarrow> (l # ls, r)))"

text \<open>
  What one invocation of the wrapper does: the lines it printed, the calls of \<^verbatim>\<open>__c\<close> it
  made with their arguments, and what it returned or raised.
\<close>

record ('v, 'r) outcome =
  printed :: "string list"
  calls :: "('v list \<times> (string, 'v) dict) list"
  result :: "exn + 'r"

text \<open>The last line: \<^verbatim>\<open>return __c(*pargs, **kwargs)\<close>.\<close>

definition forward ::
  "('v, 'r) callable \<Rightarrow> 'v list \<Rightarrow> (string, 'v) dict \<Rightarrow> string list \<Rightarrow> ('v, 'r) outcome" where
  "forward c pargs kwargs out =
     \<lparr>printed = out, calls = [(pargs, kwargs)], result = call c pargs kwargs\<rparr>"

text \<open>
  Lines 102 to 105 and 123 to 133 of the source: the report of the binding \<open>b\<close>, then the
  call of \<^verbatim>\<open>__c\<close>. An exception of \<^verbatim>\<open>repr\<close> or of \<^verbatim>\<open>max\<close> leaves the wrapper before
  that call, with the lines printed so far.
\<close>

definition raised :: "string list \<Rightarrow> exn \<Rightarrow> ('v, 'r) outcome" where
  "raised out e = \<lparr>printed = out, calls = [], result = Inl e\<rparr>"

definition report_and_forward ::
  "('v, 'r) closure \<Rightarrow> 'v runtime \<Rightarrow> 'v list \<Rightarrow> (string, 'v) dict \<Rightarrow> 'v binding \<Rightarrow>
   ('v, 'r) outcome" where
  "report_and_forward w rt pargs kwargs b =
     (let t = tables w;
          out1 = header_lines (callee w) (get_caller_info (frames_to_skip rt) (stack rt));
          out2 = out1 @ map (named_line rt (pad_length w)) (arg_to_value b);
          (star_p, star_p_raised) = star_pargs_lines (repr rt) (star_pargs_name t) (star_pargs b);
          out3 = out2 @ star_p
      in case star_p_raised of
           Some e \<Rightarrow> raised out3 e
         | None \<Rightarrow>
             (case star_kwargs_name t of
                None \<Rightarrow> forward (callee w) pargs kwargs out3
              | Some n \<Rightarrow>
                  (let out4 = out3 @ ['' **'' @ n @ '':''] in
                   case max_len (map fst (star_kwargs b)) of
                     Inl e \<Rightarrow> raised out4 e
                   | Inr star_kwarg_pad_length \<Rightarrow>
                       (let (star_k, star_k_raised) =
                              star_kwargs_lines (repr rt) star_kwarg_pad_length (star_kwargs b);
                            out5 = out4 @ star_k
                        in case star_k_raised of
                             Some e \<Rightarrow> raised out5 e
                           | None \<Rightarrow> forward (callee w) pargs kwargs out5))))"

definition wrapper ::
  "('v, 'r) closure \<Rightarrow> 'v runtime \<Rightarrow> 'v list \<Rightarrow> (string, 'v) dict \<Rightarrow> ('v, 'r) outcome" where
  "wrapper w rt pargs kwargs =
     report_and_forward w rt pargs kwargs (bind_arguments (tables w) pargs kwargs)"

text \<open>Decorating a callable and calling the wrapper once: \<^verbatim>\<open>debug_calls(c)(*pargs, **kwargs)\<close>.\<close>

definition decorate_and_call ::
  "('v, 'r) callable \<Rightarrow> 'v runtime \<Rightarrow> 'v list \<Rightarrow> (string, 'v) dict \<Rightarrow> exn + ('v, 'r) outcome" where
  "decorate_and_call c rt pargs kwargs =
     (case debug_calls c of
        Inl e \<Rightarrow> Inl e
      | Inr w \<Rightarrow> Inr (wrapper w rt pargs kwargs))"

subsection \<open>The wrapper on a store of dict objects\<close>

text \<open>
  \<^verbatim>\<open>param_to_default\<close> is one dict object, shared by every invocation of the wrapper, and
  \<^verbatim>\<open>arg_to_value[name] = ...\<close> and \<^verbatim>\<open>arg_to_value.update(...)\<close> write into an object.
  Here the dict objects live in a store, the address of an object is its index, and the
  closure holds the address \<open>pd\<close> of \<^verbatim>\<open>param_to_default\<close>. The lists and names of the
  tables are only read by the wrapper.
\<close>

type_synonym 'v store = "(string, 'v \<times> string) dict list"

definition alloc :: "(string, 'v \<times> string) dict \<Rightarrow> 'v store \<Rightarrow> nat \<times> 'v store" where
  "alloc d h = (length h, h @ [d])"

text \<open>\<^verbatim>\<open>d.copy()\<close>: a new object with the items of the old one.\<close>

definition dict_copy :: "nat \<Rightarrow> 'v store \<Rightarrow> nat \<times> 'v store" where
  "dict_copy a h = alloc (h ! a) h"

definition store_setitem :: "nat \<Rightarrow> string \<Rightarrow> 'v \<times> string \<Rightarrow> 'v store \<Rightarrow> 'v store" where
  "store_setitem a k v h = h[a := setitem k v (h ! a)]"

fun store_kwargs_loop ::
  "string list \<Rightarrow> nat \<Rightarrow> (string \<times> 'v) list \<Rightarrow> 'v store \<times> (string, 'v) dict \<Rightarrow>
   'v store \<times> (string, 'v) dict" where
  "store_kwargs_loop kwn a [] (h, skw) = (h, skw)"
| "store_kwargs_loop kwn a ((name, val) # rest) (h, skw) =
     (if name \<in> set kwn
      then store_kwargs_loop kwn a rest (store_setitem a name (val, ''k'') h, skw)
      else store_kwargs_loop kwn a rest (h, setitem name val skw))"

fun store_dict_update :: "nat \<Rightarrow> (string \<times> 'v \<times> string) list \<Rightarrow> 'v store \<Rightarrow> 'v store" where
  "store_dict_update a [] h = h"
| "store_dict_update a ((k, v) # kvs) h = store_dict_update a kvs (store_setitem a k v h)"

definition store_bind_arguments ::
  "'v tables \<Rightarrow> nat \<Rightarrow> 'v list \<Rightarrow> (string, 'v) dict \<Rightarrow> 'v store \<Rightarrow> 'v binding \<times> 'v store" where
  "store_bind_arguments t pd pargs kwargs h =
     (let (a, h1) = dict_copy pd h;
          (h2, sk) = store_kwargs_loop (kwarg_names t) a kwargs (h1, []);
          remaining = filter (\<lambda>name. \<not> items_contains kwargs (Str name)) (parg_names t);
          h3 = store_dict_update a (zip remaining (itertools_product pargs ''p'')) h2
      in (\<lparr>arg_to_value = h3 ! a, star_kwargs = sk, remaining_parg_names = remaining,
           star_pargs = drop (length remaining) pargs\<rparr>, h3))"

definition store_wrapper ::
  "('v, 'r) closure \<Rightarrow> nat \<Rightarrow> 'v runtime \<Rightarrow> 'v list \<Rightarrow> (string, 'v) dict \<Rightarrow> 'v store \<Rightarrow>
   ('v, 'r) outcome \<times> 'v store" where
  "store_wrapper w pd rt pargs kwargs h =
     (let (b, h') = store_bind_arguments (tables w) pd pargs kwargs h
      in (report_and_forward w rt pargs kwargs b, h'))"

text \<open>Decoration puts the table it built into the store, once.\<close>

definition store_debug_calls ::
  "('v, 'r) callable \<Rightarrow> 'v store \<Rightarrow> exn + (('v, 'r) closure \<times> nat \<times> 'v store)" where
  "store_debug_calls c h =
     (case debug_calls c of
        Inl e \<Rightarrow> Inl e
      | Inr w \<Rightarrow> (let (pd, h') = alloc (param_to_default (tables w)) h in Inr (w, pd, h')))"

text \<open>The store holds the table of the wrapper \<open>w\<close> at the address \<open>pd\<close>.\<close>

definition table_at :: "('v, 'r) closure \<Rightarrow> nat \<Rightarrow> 'v store \<Rightarrow> bool" where
  "table_at w pd h \<longleftrightarrow> pd < length h \<and> h ! pd = param_to_default (tables w)"

text \<open>Any number of invocations of one wrapper, one after the other.\<close>

fun store_invocations ::
  "('v, 'r) closure \<Rightarrow> nat \<Rightarrow> ('v runtime \<times> 'v list \<times> (string, 'v) dict) list \<Rightarrow> 'v store \<Rightarrow>
   ('v, 'r) outcome list \<times> 'v store" where
  "store_invocations w pd [] h = ([], h)"
| "store_invocations w pd ((rt, pargs, kwargs) # rest) h =
     (let (out, h1) = store_wrapper w pd rt pargs kwargs h;
          (outs, h2) = store_invocations w pd rest h1
      in (out # outs, h2))"

subsection \<open>Python's rules for binding the arguments of a call\<close>

text \<open>
  The words of the properties below. Positional arguments fill the positional-only and
  the positional-or-keyword parameters from the left, and the surplus needs a \<^verbatim>\<open>*args\<close>
  parameter. A keyword argument fills the positional-or-keyword or keyword-only parameter
  of its name, which no positional argument may have filled, and any other keyword
  argument needs a \<^verbatim>\<open>**kwargs\<close> parameter. A parameter left unfilled needs a default, that
  is a \<^verbatim>\<open>default\<close> other than the object \<open>EMPTY\<close> (\<^verbatim>\<open>Parameter.empty\<close>).
\<close>

definition positional_capable :: "(string, 'v Parameter) dict \<Rightarrow> string list" where
  "positional_capable ps =
     map fst (filter (\<lambda>(n, p). kind p = POSITIONAL_ONLY \<or> kind p = POSITIONAL_OR_KEYWORD) ps)"

definition keyword_capable :: "(string, 'v Parameter) dict \<Rightarrow> string list" where
  "keyword_capable ps =
     map fst (filter (\<lambda>(n, p). kind p = POSITIONAL_OR_KEYWORD \<or> kind p = KEYWORD_ONLY) ps)"

definition named_parameters :: "(string, 'v Parameter) dict \<Rightarrow> (string, 'v Parameter) dict" where
  "named_parameters ps =
     filter (\<lambda>(n, p). kind p = POSITIONAL_ONLY \<or> kind p = POSITIONAL_OR_KEYWORD
                     \<or> kind p = KEYWORD_ONLY) ps"

definition declares :: "kind \<Rightarrow> (string, 'v Parameter) dict \<Rightarrow> bool" where
  "declares k ps \<longleftrightarrow> list_ex (\<lambda>(n, p). kind p = k) ps"

text \<open>The names of the parameters of one kind, in the order of the declaration.\<close>

definition names_of_kind :: "kind \<Rightarrow> (string, 'v Parameter) dict \<Rightarrow> string list" where
  "names_of_kind k ps = map fst (filter (\<lambda>(n, p). kind p = k) ps)"

definition supplied_by_position :: "(string, 'v Parameter) dict \<Rightarrow> 'v list \<Rightarrow> string \<Rightarrow> bool" where
  "supplied_by_position ps pargs n \<longleftrightarrow> n \<in> set (take (length pargs) (positional_capable ps))"

definition supplied_by_name ::
  "(string, 'v Parameter) dict \<Rightarrow> (string, 'v) dict \<Rightarrow> string \<Rightarrow> bool" where
  "supplied_by_name ps kwargs n \<longleftrightarrow> n \<in> set (keyword_capable ps) \<and> n \<in> set (map fst kwargs)"

definition valid_call ::
  "'v \<Rightarrow> (string, 'v Parameter) dict \<Rightarrow> 'v list \<Rightarrow> (string, 'v) dict \<Rightarrow> bool" where
  "valid_call EMPTY ps pargs kwargs \<longleftrightarrow>
     (length pargs \<le> length (positional_capable ps) \<or> declares VAR_POSITIONAL ps) \<and>
     list_all (\<lambda>k. if k \<in> set (keyword_capable ps) then \<not> supplied_by_position ps pargs k
                   else declares VAR_KEYWORD ps) (map fst kwargs) \<and>
     list_all (\<lambda>(n, p). default_value p \<noteq> EMPTY \<or> supplied_by_position ps pargs n
                        \<or> supplied_by_name ps kwargs n) (named_parameters ps)"

text \<open>
  The values whose \<^verbatim>\<open>repr\<close> the wrapper writes unguarded: the positional arguments beyond
  the positional-capable parameters, when a \<^verbatim>\<open>*args\<close> parameter is declared, and the
  keyword arguments that match no keyword-capable parameter, when a \<^verbatim>\<open>**kwargs\<close> parameter
  is declared. The report is printed to its end when \<^verbatim>\<open>repr\<close> raises on none of them.
\<close>

definition printable :: "'v runtime \<Rightarrow> 'v \<Rightarrow> bool" where
  "printable rt x = (case repr rt x of Inr s \<Rightarrow> True | Inl e \<Rightarrow> False)"

definition surplus_printable ::
  "'v runtime \<Rightarrow> (string, 'v Parameter) dict \<Rightarrow> 'v list \<Rightarrow> bool" where
  "surplus_printable rt ps pargs \<longleftrightarrow>
     (declares VAR_POSITIONAL ps \<longrightarrow>
        list_all (printable rt) (drop (length (positional_capable ps)) pargs))"

definition excess_printable ::
  "'v runtime \<Rightarrow> (string, 'v Parameter) dict \<Rightarrow> (string, 'v) dict \<Rightarrow> bool" where
  "excess_printable rt ps kwargs \<longleftrightarrow>
     (declares VAR_KEYWORD ps \<longrightarrow>
        list_all (\<lambda>(k, x). k \<in> set (keyword_capable ps) \<or> printable rt x) kwargs)"

subsection \<open>Example values and callables\<close>

text \<open>
  Integers, strings, the object \<^verbatim>\<open>Parameter.empty\<close>, and an object of a class whose
  \<^verbatim>\<open>__repr__\<close> raises an exception.
\<close>

datatype pyval = PyInt int | PyStr string | ParameterEmpty | Unprintable

definition param :: "kind \<Rightarrow> pyval Parameter" where
  "param k = \<lparr>kind = k, default_value = ParameterEmpty\<rparr>"

definition param_default :: "kind \<Rightarrow> pyval \<Rightarrow> pyval Parameter" where
  "param_default k v = \<lparr>kind = k, default_value = v\<rparr>"

definition def_f :: "(string, pyval Parameter) dict \<Rightarrow>
    (pyval list \<Rightarrow> (string, pyval) dict \<Rightarrow> exn + 'r) \<Rightarrow> (pyval, 'r) callable" where
  "def_f ps body = \<lparr>c_module = ''__main__'', c_qualname = ''f'', parameters = ps, call = body\<rparr>"

text \<open>\<^verbatim>\<open>def f(a, /, b, *, c, d="x")\<close>\<close>

definition sig_a_b_c_d :: "(string, pyval Parameter) dict" where
  "sig_a_b_c_d =
     [(''a'', param POSITIONAL_ONLY), (''b'', param POSITIONAL_OR_KEYWORD),
      (''c'', param KEYWORD_ONLY), (''d'', param_default KEYWORD_ONLY (PyStr ''x''))]"

text \<open>\<^verbatim>\<open>def f(a, **kw)\<close>\<close>

definition sig_a_kw :: "(string, pyval Parameter) dict" where
  "sig_a_kw = [(''a'', param POSITIONAL_OR_KEYWORD), (''kw'', param VAR_KEYWORD)]"

text \<open>\<^verbatim>\<open>def f(a, *args, **kw)\<close>\<close>

definition sig_a_args_kw :: "(string, pyval Parameter) dict" where
  "sig_a_args_kw =
     [(''a'', param POSITIONAL_OR_KEYWORD), (''args'', param VAR_POSITIONAL),
      (''kw'', param VAR_KEYWORD)]"

text \<open>\<^verbatim>\<open>def f(a, /, **kw)\<close>\<close>

definition sig_a_only_kw :: "(string, pyval Parameter) dict" where
  "sig_a_only_kw = [(''a'', param POSITIONAL_ONLY), (''kw'', param VAR_KEYWORD)]"

text \<open>\<^verbatim>\<open>def f(a, /, *args, **kw)\<close>\<close>

definition sig_a_only_args_kw :: "(string, pyval Parameter) dict" where
  "sig_a_only_args_kw =
     [(''a'', param POSITIONAL_ONLY), (''args'', param VAR_POSITIONAL),
      (''kw'', param VAR_KEYWORD)]"

text \<open>\<^verbatim>\<open>def f(a, /)\<close>\<close>

definition sig_a_only :: "(string, pyval Parameter) dict" where
  "sig_a_only = [(''a'', param POSITIONAL_ONLY)]"

text \<open>\<^verbatim>\<open>def f(a, b=0)\<close>\<close>

definition sig_a_b0 :: "(string, pyval Parameter) dict" where
  "sig_a_b0 =
     [(''a'', param POSITIONAL_OR_KEYWORD), (''b'', param_default POSITIONAL_OR_KEYWORD (PyInt 0))]"

text \<open>\<^verbatim>\<open>def f(*args, **kwargs)\<close>\<close>

definition sig_args_kwargs :: "(string, pyval Parameter) dict" where
  "sig_args_kwargs = [(''args'', param VAR_POSITIONAL), (''kwargs'', param VAR_KEYWORD)]"

text \<open>A body that returns its first positional argument, or the keyword argument \<open>a\<close>.\<close>

definition return_a :: "pyval list \<Rightarrow> (string, pyval) dict \<Rightarrow> exn + pyval" where
  "return_a pargs kwargs =
     (case pargs of
        x # _ \<Rightarrow> Inr x
      | [] \<Rightarrow> (case map_of kwargs ''a'' of Some x \<Rightarrow> Inr x | None \<Rightarrow> Inl TypeError))"

text \<open>
  A runtime for the examples: \<open>example_repr\<close> writes an integer in decimal digits and a
  string between single quotes and raises on the unprintable object, and the wrapper is
  called from \<^verbatim>\<open>main\<close> in \<^verbatim>\<open>app.py\<close>.
\<close>

fun example_repr :: "pyval \<Rightarrow> exn + string" where
  "example_repr (PyInt i) = Inr (str_int i)"
| "example_repr (PyStr s) = Inr ([CHR 0x27] @ s @ [CHR 0x27])"
| "example_repr ParameterEmpty =
     Inr (''<class '' @ [CHR 0x27] @ ''inspect._empty'' @ [CHR 0x27] @ ''>'')"
| "example_repr Unprintable = Inl (Exception ''__repr__'')"

definition example_object_repr :: "pyval \<Rightarrow> string" where
  "example_object_repr x = ''<object>''"

definition example_runtime :: "pyval runtime" where
  "example_runtime =
     \<lparr>repr = example_repr, object_repr = example_object_repr,
      stack =
        [\<lparr>filename = ''decorators.py'', lineno = 35, function_name = ''get_caller_info''\<rparr>,
         \<lparr>filename = ''decorators.py'', lineno = 103, function_name = ''wrapper''\<rparr>,
         \<lparr>filename = ''app.py'', lineno = 12, function_name = ''main''\<rparr>],
      frames_to_skip = FRAMES_TO_SKIP ''/usr/lib/python3'' ''/usr/lib/python3/site-packages''\<rparr>"

subsection \<open>Properties of the caller locator\<close>

lemma caller_loop_all_skipped:
  "list_all (skipped sk) frs \<Longrightarrow> caller_loop sk i frs = ('''', 0, '''', True)"
  by (induction frs arbitrary: i) (simp_all add: skipped_def)

lemma caller_loop_find:
  "caller_loop sk (Suc i) frs =
     (case find (\<lambda>fr. \<not> skipped sk fr) frs of
        Some g \<Rightarrow> (filename g, lineno g, function_name g, True)
      | None \<Rightarrow> ('''', 0, '''', True))"
  by (induction frs arbitrary: i) (simp_all add: skipped_def)

text \<open>
  Claim C6. Let the call chain (the stack from the caller of the wrapper outward) start
  with the frame \<open>fr\<close>. If \<open>fr\<close> is not in the skip list, the locator returns \<open>fr\<close> with the
  flag false. If \<open>fr\<close> is in the skip list, the locator returns the first frame further out
  that is not in the skip list, with the flag true (and the sentinel of claim C7 when there
  is no such frame).
\<close>

theorem get_caller_info_nearest:
  assumes "drop 2 stk = fr # rest"
  shows "get_caller_info sk stk =
     (if skipped sk fr
      then (case find (\<lambda>g. \<not> skipped sk g) rest of
              Some g \<Rightarrow> (filename g, lineno g, function_name g, True)
            | None \<Rightarrow> ('''', 0, '''', True))
      else (filename fr, lineno fr, function_name fr, False))"
  using assms caller_loop_find [of sk 0 rest]
  by (simp add: get_caller_info_def skipped_def)

theorem get_caller_info_nearest_witness:
  "get_caller_info [(''contextlib.py'', ''inner'')]
     [\<lparr>filename = ''decorators.py'', lineno = 35, function_name = ''get_caller_info''\<rparr>,
      \<lparr>filename = ''decorators.py'', lineno = 103, function_name = ''wrapper''\<rparr>,
      \<lparr>filename = ''contextlib.py'', lineno = 79, function_name = ''inner''\<rparr>,
      \<lparr>filename = ''app.py'', lineno = 12, function_name = ''main''\<rparr>]
     = (''app.py'', 12, ''main'', True)
   \<and> get_caller_info [(''contextlib.py'', ''inner'')]
     [\<lparr>filename = ''decorators.py'', lineno = 35, function_name = ''get_caller_info''\<rparr>,
      \<lparr>filename = ''decorators.py'', lineno = 103, function_name = ''wrapper''\<rparr>,
      \<lparr>filename = ''app.py'', lineno = 12, function_name = ''main''\<rparr>,
      \<lparr>filename = ''contextlib.py'', lineno = 79, function_name = ''inner''\<rparr>]
     = (''app.py'', 12, ''main'', False)"
  using
    get_caller_info_nearest [of
      "[\<lparr>filename = ''decorators.py'', lineno = 35, function_name = ''get_caller_info''\<rparr>,
        \<lparr>filename = ''decorators.py'', lineno = 103, function_name = ''wrapper''\<rparr>,
        \<lparr>filename = ''contextlib.py'', lineno = 79, function_name = ''inner''\<rparr>,
        \<lparr>filename = ''app.py'', lineno = 12, function_name = ''main''\<rparr>]"
      "\<lparr>filename = ''contextlib.py'', lineno = 79, function_name = ''inner''\<rparr>"
      "[\<lparr>filename = ''app.py'', lineno = 12, function_name = ''main''\<rparr>]"
      "[(''contextlib.py'', ''inner'')]"]
    get_caller_info_nearest [of
      "[\<lparr>filename = ''decorators.py'', lineno = 35, function_name = ''get_caller_info''\<rparr>,
        \<lparr>filename = ''decorators.py'', lineno = 103, function_name = ''wrapper''\<rparr>,
        \<lparr>filename = ''app.py'', lineno = 12, function_name = ''main''\<rparr>,
        \<lparr>filename = ''contextlib.py'', lineno = 79, function_name = ''inner''\<rparr>]"
      "\<lparr>filename = ''app.py'', lineno = 12, function_name = ''main''\<rparr>"
      "[\<lparr>filename = ''contextlib.py'', lineno = 79, function_name = ''inner''\<rparr>]"
      "[(''contextlib.py'', ''inner'')]"]
  by (simp add: skipped_def)

text \<open>
  Claim C7. When every frame of the call chain is in the skip list, and so when the chain
  is empty, the locator returns the empty filename, line 0, the empty function name and
  the flag true. The locator has no exception to raise: its result is always a tuple.
\<close>

theorem get_caller_info_exhausted:
  assumes "list_all (skipped sk) (drop 2 stk)"
  shows "get_caller_info sk stk = ('''', 0, '''', True)"
  using assms by (simp add: get_caller_info_def caller_loop_all_skipped)

theorem get_caller_info_exhausted_witness:
  "get_caller_info [(''contextlib.py'', ''inner'')]
     [\<lparr>filename = ''decorators.py'', lineno = 35, function_name = ''get_caller_info''\<rparr>,
      \<lparr>filename = ''decorators.py'', lineno = 103, function_name = ''wrapper''\<rparr>,
      \<lparr>filename = ''contextlib.py'', lineno = 79, function_name = ''inner''\<rparr>]
     = ('''', 0, '''', True)
   \<and> get_caller_info [(''contextlib.py'', ''inner'')]
     [\<lparr>filename = ''decorators.py'', lineno = 35, function_name = ''get_caller_info''\<rparr>,
      \<lparr>filename = ''decorators.py'', lineno = 103, function_name = ''wrapper''\<rparr>]
     = ('''', 0, '''', True)"
  using
    get_caller_info_exhausted [of "[(''contextlib.py'', ''inner'')]"
      "[\<lparr>filename = ''decorators.py'', lineno = 35, function_name = ''get_caller_info''\<rparr>,
        \<lparr>filename = ''decorators.py'', lineno = 103, function_name = ''wrapper''\<rparr>,
        \<lparr>filename = ''contextlib.py'', lineno = 79, function_name = ''inner''\<rparr>]"]
    get_caller_info_exhausted [of "[(''contextlib.py'', ''inner'')]"
      "[\<lparr>filename = ''decorators.py'', lineno = 35, function_name = ''get_caller_info''\<rparr>,
        \<lparr>filename = ''decorators.py'', lineno = 103, function_name = ''wrapper''\<rparr>]"]
  by (simp add: skipped_def)

subsection \<open>Dictionaries, tables and bindings\<close>

lemma setitem_fresh: "k \<notin> fst ` set d \<Longrightarrow> setitem k v d = d @ [(k, v)]"
  by (induction d) auto

lemma setitem_keys: "k \<in> fst ` set d \<Longrightarrow> map fst (setitem k v d) = map fst d"
  by (simp add: update_keys)

lemma dict_update_keys:
  "fst ` set kvs \<subseteq> fst ` set d \<Longrightarrow> map fst (dict_update kvs d) = map fst d"
proof (induction kvs arbitrary: d)
  case Nil
  then show ?case by simp
next
  case (Cons kv kvs)
  obtain k v where kv: "kv = (k, v)" by (cases kv)
  from Cons.prems kv have k: "k \<in> fst ` set d" by auto
  then have keys: "map fst (setitem k v d) = map fst d" by (rule setitem_keys)
  then have "fst ` set (setitem k v d) = fst ` set d"
    by (metis list.set_map)
  with Cons.prems have "fst ` set kvs \<subseteq> fst ` set (setitem k v d)" by auto
  from Cons.IH [OF this] keys kv show ?case by simp
qed

lemma map_of_dict_update:
  "distinct (map fst kvs) \<Longrightarrow>
   map_of (dict_update kvs d) n = (case map_of kvs n of Some v \<Rightarrow> Some v | None \<Rightarrow> map_of d n)"
proof (induction kvs arbitrary: d)
  case Nil
  then show ?case by simp
next
  case (Cons kv kvs)
  obtain k v where kv: "kv = (k, v)" by (cases kv)
  with Cons.prems have d: "distinct (map fst kvs)" and nk: "k \<notin> fst ` set kvs" by auto
  from nk have "map_of kvs k = None" by (simp add: map_of_eq_None_iff)
  with Cons.IH [OF d, of "setitem k v d"] kv show ?case
    by (auto simp: update_conv' split: option.splits)
qed

lemma kwargs_loop_keys:
  "set kwn \<subseteq> fst ` set a \<Longrightarrow> map fst (fst (kwargs_loop kwn kws (a, s))) = map fst a"
proof (induction kws arbitrary: a s)
  case Nil
  then show ?case by simp
next
  case (Cons kv kws)
  obtain k v where kv: "kv = (k, v)" by (cases kv)
  show ?case
  proof (cases "k \<in> set kwn")
    case True
    with Cons.prems have "k \<in> fst ` set a" by auto
    then have keys: "map fst (setitem k (v, ''k'') a) = map fst a" by (rule setitem_keys)
    then have "fst ` set (setitem k (v, ''k'') a) = fst ` set a" by (metis list.set_map)
    with Cons.prems have "set kwn \<subseteq> fst ` set (setitem k (v, ''k'') a)" by simp
    from Cons.IH [OF this] keys kv True show ?thesis by simp
  next
    case False
    with Cons.IH [OF Cons.prems] kv show ?thesis by simp
  qed
qed

lemma map_of_kwargs_loop:
  "distinct (map fst kws) \<Longrightarrow>
   map_of (fst (kwargs_loop kwn kws (a, s))) n =
     (if n \<in> set kwn then (case map_of kws n of Some v \<Rightarrow> Some (v, ''k'') | None \<Rightarrow> map_of a n)
      else map_of a n)"
proof (induction kws arbitrary: a s)
  case Nil
  then show ?case by simp
next
  case (Cons kv kws)
  obtain k v where kv: "kv = (k, v)" by (cases kv)
  with Cons.prems have d: "distinct (map fst kws)" and nk: "k \<notin> fst ` set kws" by auto
  from nk have none: "map_of kws k = None" by (simp add: map_of_eq_None_iff)
  show ?case
  proof (cases "k \<in> set kwn")
    case True
    with Cons.IH [OF d, of "setitem k (v, ''k'') a" s] kv none show ?thesis
      by (auto simp: update_conv' split: option.splits)
  next
    case False
    with Cons.IH [OF d, of a "setitem k v s"] kv show ?thesis by auto
  qed
qed

lemma kwargs_loop_star:
  "distinct (map fst kws) \<Longrightarrow> fst ` set kws \<inter> fst ` set s = {} \<Longrightarrow>
   snd (kwargs_loop kwn kws (a, s)) = s @ filter (\<lambda>(k, v). k \<notin> set kwn) kws"
proof (induction kws arbitrary: a s)
  case Nil
  then show ?case by simp
next
  case (Cons kv kws)
  obtain k v where kv: "kv = (k, v)" by (cases kv)
  with Cons.prems have d: "distinct (map fst kws)" and nk: "k \<notin> fst ` set kws"
    and ks: "k \<notin> fst ` set s" and disj: "fst ` set kws \<inter> fst ` set s = {}" by auto
  show ?case
  proof (cases "k \<in> set kwn")
    case True
    with Cons.IH [OF d disj, of "setitem k (v, ''k'') a"] kv show ?thesis by simp
  next
    case False
    from ks have fresh: "setitem k v s = s @ [(k, v)]" by (rule setitem_fresh)
    from nk disj have "fst ` set kws \<inter> fst ` set (s @ [(k, v)]) = {}" by auto
    from Cons.IH [OF d this, of a] kv False fresh show ?thesis by simp
  qed
qed

lemma kwargs_loop_no_star:
  "fst ` set kws \<subseteq> set kwn \<Longrightarrow> snd (kwargs_loop kwn kws (a, s)) = s"
  by (induction kws arbitrary: a s) auto

lemma itertools_product_p: "itertools_product pargs ''p'' = map (\<lambda>v. (v, ''p'')) pargs"
  by (induction pargs) (simp_all add: itertools_product_def)


lemma fold_scan_names:
  "parg_names (fold scan_parameter ps t) = parg_names t @ positional_capable ps
   \<and> kwarg_names (fold scan_parameter ps t) = kwarg_names t @ keyword_capable ps
   \<and> (star_kwargs_name (fold scan_parameter ps t) = None \<longleftrightarrow>
        star_kwargs_name t = None \<and> \<not> declares VAR_KEYWORD ps)
   \<and> (star_pargs_name (fold scan_parameter ps t) = None \<longleftrightarrow>
        star_pargs_name t = None \<and> \<not> declares VAR_POSITIONAL ps)"
proof (induction ps arbitrary: t)
  case Nil
  then show ?case
    by (simp add: positional_capable_def keyword_capable_def declares_def)
next
  case (Cons np ps)
  obtain n p where np: "np = (n, p)" by (cases np)
  from Cons.IH [of "scan_parameter (n, p) t"] np show ?case
    by (cases "kind p")
      (simp_all add: positional_capable_def keyword_capable_def declares_def)
qed

lemma scan_parameters_names:
  "parg_names (scan_parameters ps) = positional_capable ps"
  "kwarg_names (scan_parameters ps) = keyword_capable ps"
  "star_kwargs_name (scan_parameters ps) = None \<longleftrightarrow> \<not> declares VAR_KEYWORD ps"
  "star_pargs_name (scan_parameters ps) = None \<longleftrightarrow> \<not> declares VAR_POSITIONAL ps"
  using fold_scan_names [of ps empty_tables]
  by (simp_all add: scan_parameters_def empty_tables_def)

lemma fold_scan_parameter:
  "distinct (map fst ps) \<Longrightarrow> fst ` set ps \<inter> fst ` set (param_to_default t) = {} \<Longrightarrow>
   param_to_default (fold scan_parameter ps t) =
     param_to_default t @ map (\<lambda>(n, p). (n, default_value p, ''d'')) (named_parameters ps)"
proof (induction ps arbitrary: t)
  case Nil
  then show ?case by (simp add: named_parameters_def)
next
  case (Cons np ps)
  obtain n p where np: "np = (n, p)" by (cases np)
  with Cons.prems have d: "distinct (map fst ps)" and nps: "n \<notin> fst ` set ps"
    and nt: "n \<notin> fst ` set (param_to_default t)"
    and disj: "fst ` set ps \<inter> fst ` set (param_to_default t) = {}" by auto
  let ?t = "scan_parameter (n, p) t"
  from nt have fresh: "\<And>v. setitem n v (param_to_default t) = param_to_default t @ [(n, v)]"
    by (rule setitem_fresh)
  have "fst ` set (param_to_default ?t) \<subseteq> insert n (fst ` set (param_to_default t))"
    by (cases "kind p") (auto simp: dom_update)
  with nps disj have disj': "fst ` set ps \<inter> fst ` set (param_to_default ?t) = {}" by blast
  from Cons.IH [OF d disj'] np fresh show ?case
    by (cases "kind p") (simp_all add: named_parameters_def)
qed

lemma scan_parameters_tables:
  assumes "distinct (map fst ps)"
  shows "param_to_default (scan_parameters ps) =
           map (\<lambda>(n, p). (n, default_value p, ''d'')) (named_parameters ps)"
  using fold_scan_parameter [OF assms, of empty_tables]
  by (simp add: scan_parameters_def empty_tables_def)

lemma debug_calls_Inr:
  "debug_calls c = Inr w \<Longrightarrow>
   callee w = c \<and> tables w = scan_parameters (parameters c) \<and>
   max_len (map fst (param_to_default (tables w))) = Inr (pad_length w)"
  by (auto simp: debug_calls_def Let_def split: sum.splits)

lemma map_of_zip_None:
  "map_of (zip xs ys) n = None \<longleftrightarrow> n \<notin> set (take (length ys) xs)"
proof -
  have "map fst (zip xs ys) = take (length ys) xs"
    by (simp add: map_fst_zip_take min_def)
  then have "fst ` set (zip xs ys) = set (take (length ys) xs)"
    by (metis list.set_map)
  then show ?thesis by (simp add: map_of_eq_None_iff)
qed

lemma map_of_zip_Some:
  "distinct xs \<Longrightarrow> i < length xs \<Longrightarrow> i < length ys \<Longrightarrow>
   map_of (zip xs ys) (xs ! i) = Some (ys ! i)"
proof (induction xs arbitrary: ys i)
  case Nil
  then show ?case by simp
next
  case (Cons x xs)
  then obtain y ys' where ys: "ys = y # ys'" by (cases ys) auto
  show ?case
  proof (cases i)
    case 0
    with ys show ?thesis by simp
  next
    case (Suc k)
    with Cons.prems ys have "k < length xs" "k < length ys'" "distinct xs" "xs ! k \<noteq> x"
      by auto
    with Cons.IH [of k ys'] ys Suc show ?thesis by simp
  qed
qed

lemma in_take_nth: "n \<in> set (take m xs) \<Longrightarrow> \<exists>i. i < m \<and> i < length xs \<and> xs ! i = n"
  by (auto simp: in_set_conv_nth)

lemma distinct_positional_capable:
  "distinct (map fst ps) \<Longrightarrow> distinct (positional_capable ps)"
  by (simp add: positional_capable_def distinct_map_filter)

lemma capable_named:
  "set (positional_capable ps) \<subseteq> fst ` set (named_parameters ps)"
  "set (keyword_capable ps) \<subseteq> fst ` set (named_parameters ps)"
  by (auto simp: positional_capable_def keyword_capable_def named_parameters_def)

lemma keys_defaults:
  "map fst (map (\<lambda>(n, p). (n, default_value p, ''d'')) nps) = map fst nps"
  by (induction nps) auto

lemma bind_arguments_scan:
  assumes sig: "distinct (map fst ps)"
    and b_def: "b = bind_arguments (scan_parameters ps) pargs kwargs"
  shows "remaining_parg_names b = positional_capable ps"
    and "star_pargs b = drop (length (positional_capable ps)) pargs"
    and "map fst (arg_to_value b) = map fst (named_parameters ps)"
    and "distinct (map fst kwargs) \<Longrightarrow>
         star_kwargs b = filter (\<lambda>(k, v). k \<notin> set (keyword_capable ps)) kwargs"
    and "fst ` set kwargs \<subseteq> set (keyword_capable ps) \<Longrightarrow> star_kwargs b = []"
    and "distinct (map fst kwargs) \<Longrightarrow> map_of (arg_to_value b) n =
         (case map_of (zip (positional_capable ps) (map (\<lambda>v. (v, ''p'')) pargs)) n of
            Some x \<Rightarrow> Some x
          | None \<Rightarrow>
              (if n \<in> set (keyword_capable ps)
               then (case map_of kwargs n of
                       Some v \<Rightarrow> Some (v, ''k'')
                     | None \<Rightarrow> map_of (map (\<lambda>(n, p). (n, default_value p, ''d''))
                                          (named_parameters ps)) n)
               else map_of (map (\<lambda>(n, p). (n, default_value p, ''d''))
                              (named_parameters ps)) n))"
proof -
  let ?t = "scan_parameters ps"
  let ?pd = "map (\<lambda>(n, p). (n, default_value p, ''d'')) (named_parameters ps)"
  let ?loop = "kwargs_loop (keyword_capable ps) kwargs (?pd, [])"
  let ?kvs = "zip (positional_capable ps) (map (\<lambda>v. (v, ''p'')) pargs)"
  note tabs = scan_parameters_tables [OF sig] scan_parameters_names(1,2)
  have b: "b = \<lparr>arg_to_value = dict_update ?kvs (fst ?loop), star_kwargs = snd ?loop,
                remaining_parg_names = positional_capable ps,
                star_pargs = drop (length (positional_capable ps)) pargs\<rparr>"
    by (simp add: b_def bind_arguments_def tabs itertools_product_p split_beta Let_def)
  show "remaining_parg_names b = positional_capable ps"
    and "star_pargs b = drop (length (positional_capable ps)) pargs"
    by (simp_all add: b)
  have keys_pd: "fst ` set ?pd = fst ` set (named_parameters ps)"
    by (metis keys_defaults list.set_map)
  have loop_keys: "map fst (fst ?loop) = map fst ?pd"
    by (rule kwargs_loop_keys) (use capable_named(2) [of ps] keys_pd in simp)
  have "fst ` set ?kvs \<subseteq> set (positional_capable ps)"
    by (auto dest: set_zip_leftD)
  also have "\<dots> \<subseteq> fst ` set (fst ?loop)"
    using capable_named(1) [of ps] keys_pd loop_keys by (metis list.set_map)
  finally have "map fst (dict_update ?kvs (fst ?loop)) = map fst (fst ?loop)"
    by (rule dict_update_keys)
  with loop_keys have "map fst (arg_to_value b) = map fst ?pd"
    by (simp add: b)
  also have "map fst ?pd = map fst (named_parameters ps)"
    by (rule keys_defaults)
  finally show "map fst (arg_to_value b) = map fst (named_parameters ps)" .
  show "star_kwargs b = filter (\<lambda>(k, v). k \<notin> set (keyword_capable ps)) kwargs"
    if "distinct (map fst kwargs)"
    using kwargs_loop_star [OF that, of "[]" "keyword_capable ps" ?pd] by (simp add: b)
  show "star_kwargs b = []" if "fst ` set kwargs \<subseteq> set (keyword_capable ps)"
    using kwargs_loop_no_star [OF that, of ?pd "[]"] by (simp add: b)
  have dk: "distinct (map fst ?kvs)"
    using distinct_positional_capable [OF sig]
    by (simp add: map_fst_zip_take)
  show "map_of (arg_to_value b) n =
         (case map_of ?kvs n of
            Some x \<Rightarrow> Some x
          | None \<Rightarrow>
              (if n \<in> set (keyword_capable ps)
               then (case map_of kwargs n of
                       Some v \<Rightarrow> Some (v, ''k'')
                     | None \<Rightarrow> map_of ?pd n)
               else map_of ?pd n))"
    if "distinct (map fst kwargs)"
    by (simp add: b map_of_dict_update [OF dk] map_of_kwargs_loop [OF that]
          split: option.splits)
qed


lemma length_header_lines: "length (header_lines c info) = 3"
  by (cases info) (simp add: header_lines_def)

lemma printed_report:
  "\<exists>rest. printed (report_and_forward w rt pargs kwargs b) =
     header_lines (callee w) (get_caller_info (frames_to_skip rt) (stack rt))
     @ map (named_line rt (pad_length w)) (arg_to_value b) @ rest"
  by (simp add: report_and_forward_def forward_def raised_def Let_def
        split: option.splits sum.splits prod.splits)

lemma printed_named_line:
  assumes "j < length (arg_to_value b)"
  shows "printed (report_and_forward w rt pargs kwargs b) ! (3 + j) =
     named_line rt (pad_length w) (arg_to_value b ! j)"
proof -
  obtain rest where "printed (report_and_forward w rt pargs kwargs b) =
     header_lines (callee w) (get_caller_info (frames_to_skip rt) (stack rt))
     @ map (named_line rt (pad_length w)) (arg_to_value b) @ rest"
    using printed_report by blast
  with assms show ?thesis
    by (simp add: nth_append length_header_lines)
qed

lemma dict_nth:
  assumes "distinct (map fst d)" and "j < length d" and "fst (d ! j) = n"
  shows "map_of d n = Some (snd (d ! j))"
proof -
  from assms(2,3) have "(n, snd (d ! j)) \<in> set d"
    by (metis nth_mem prod.collapse)
  with assms(1) show ?thesis by simp
qed

lemma distinct_named_parameters:
  "distinct (map fst ps) \<Longrightarrow> distinct (map fst (named_parameters ps))"
  by (simp add: named_parameters_def distinct_map_filter)

text \<open>
  Claim C5. In a valid call of a decorated callable, the line printed for a named
  parameter (the line after the three header lines and the lines of the named parameters
  declared before it) carries the letter \<open>p\<close> and the positional argument when the parameter
  is supplied by position, the letter \<open>k\<close> and the keyword argument when it is supplied by
  name, and the letter \<open>d\<close> and the declared default when it is not supplied.
\<close>

theorem report_categories:
  assumes dec: "debug_calls c = Inr w"
    and sig: "distinct (map fst (parameters c))"
    and kws: "distinct (map fst kwargs)"
    and valid: "valid_call EMPTY (parameters c) pargs kwargs"
    and j: "j < length (named_parameters (parameters c))"
    and np: "named_parameters (parameters c) ! j = (n, p)"
  shows "(supplied_by_position (parameters c) pargs n \<longrightarrow>
            (\<exists>i. i < length pargs \<and> i < length (positional_capable (parameters c))
                \<and> positional_capable (parameters c) ! i = n
                \<and> printed (wrapper w rt pargs kwargs) ! (3 + j) =
                    ''(p) '' @ ljust (pad_length w) n @ '': ''
                      @ safe_repr rt (pargs ! i) True))
       \<and> (supplied_by_name (parameters c) kwargs n \<longrightarrow>
            (\<exists>v. (n, v) \<in> set kwargs
                \<and> printed (wrapper w rt pargs kwargs) ! (3 + j) =
                    ''(k) '' @ ljust (pad_length w) n @ '': '' @ safe_repr rt v True))
       \<and> (\<not> supplied_by_position (parameters c) pargs n
            \<and> \<not> supplied_by_name (parameters c) kwargs n \<longrightarrow>
            printed (wrapper w rt pargs kwargs) ! (3 + j) =
              ''(d) '' @ ljust (pad_length w) n @ '': ''
                @ safe_repr rt (default_value p) True)"
proof -
  let ?ps = "parameters c"
  let ?pos = "positional_capable ?ps"
  let ?b = "bind_arguments (tables w) pargs kwargs"
  let ?line = "printed (wrapper w rt pargs kwargs) ! (3 + j)"
  let ?pd = "map (\<lambda>(n, p). (n, default_value p, ''d'')) (named_parameters ?ps)"
  let ?kvs = "zip ?pos (map (\<lambda>v. (v, ''p'')) pargs)"
  from dec have tw: "tables w = scan_parameters ?ps"
    by (simp add: debug_calls_Inr)
  then have b: "?b = bind_arguments (scan_parameters ?ps) pargs kwargs" by simp
  note bind = bind_arguments_scan [OF sig b]
  have keys: "map fst (arg_to_value ?b) = map fst (named_parameters ?ps)" by (rule bind(3))
  then have len: "length (arg_to_value ?b) = length (named_parameters ?ps)"
    by (metis length_map)
  from keys j np have key_j: "fst (arg_to_value ?b ! j) = n"
    by (metis fst_conv len nth_map)
  have dist: "distinct (map fst (arg_to_value ?b))"
    using keys distinct_named_parameters [OF sig] by simp
  have entry: "map_of (arg_to_value ?b) n = Some (snd (arg_to_value ?b ! j))"
    using dist j key_j len by (simp add: dict_nth)
  have line: "?line = named_line rt (pad_length w) (n, snd (arg_to_value ?b ! j))"
    using printed_named_line [of j ?b w rt pargs kwargs] j len key_j
    by (metis prod.collapse wrapper_def)
  have dflt: "map_of ?pd n = Some (default_value p, ''d'')"
  proof -
    from j np have "(n, default_value p, ''d'') \<in> set ?pd"
      by (force simp: in_set_conv_nth)
    moreover have "distinct (map fst ?pd)"
      using distinct_named_parameters [OF sig] keys_defaults [of "named_parameters ?ps"]
      by (simp only:)
    ultimately show ?thesis by simp
  qed
  note mo = bind(6) [OF kws, of n]
  have by_pos: "\<exists>i. i < length pargs \<and> i < length ?pos \<and> ?pos ! i = n
      \<and> ?line = ''(p) '' @ ljust (pad_length w) n @ '': '' @ safe_repr rt (pargs ! i) True"
    if "supplied_by_position ?ps pargs n"
  proof -
    from that obtain i where i: "i < length pargs" "i < length ?pos" "?pos ! i = n"
      unfolding supplied_by_position_def by (blast dest: in_take_nth)
    have "map_of ?kvs (?pos ! i) = Some (map (\<lambda>v. (v, ''p'')) pargs ! i)"
      using distinct_positional_capable [OF sig] i(1,2) by (intro map_of_zip_Some) simp_all
    with i have "map_of ?kvs n = Some (pargs ! i, ''p'')" by simp
    with mo entry have "snd (arg_to_value ?b ! j) = (pargs ! i, ''p'')" by simp
    with line i show ?thesis by (auto simp: named_line_def)
  qed
  have not_pos: "map_of ?kvs n = None" if "\<not> supplied_by_position ?ps pargs n"
    using that by (simp add: map_of_zip_None supplied_by_position_def)
  have by_name: "\<exists>v. (n, v) \<in> set kwargs
      \<and> ?line = ''(k) '' @ ljust (pad_length w) n @ '': '' @ safe_repr rt v True"
    if sn: "supplied_by_name ?ps kwargs n"
  proof -
    from sn have kc: "n \<in> set (keyword_capable ?ps)" and nk: "n \<in> set (map fst kwargs)"
      by (simp_all add: supplied_by_name_def)
    from valid nk kc have "\<not> supplied_by_position ?ps pargs n"
      by (auto simp: valid_call_def list_all_iff)
    then have none: "map_of ?kvs n = None" by (rule not_pos)
    from nk obtain v where v: "(n, v) \<in> set kwargs" by auto
    with kws have "map_of kwargs n = Some v" by simp
    with mo entry none kc have "snd (arg_to_value ?b ! j) = (v, ''k'')" by simp
    with line v show ?thesis by (auto simp: named_line_def)
  qed
  have by_default:
    "?line = ''(d) '' @ ljust (pad_length w) n @ '': '' @ safe_repr rt (default_value p) True"
    if np: "\<not> supplied_by_position ?ps pargs n" and nn: "\<not> supplied_by_name ?ps kwargs n"
  proof -
    from np have none: "map_of ?kvs n = None" by (rule not_pos)
    from nn have "n \<notin> set (keyword_capable ?ps) \<or> map_of kwargs n = None"
      by (auto simp: supplied_by_name_def map_of_eq_None_iff)
    with mo none have "map_of (arg_to_value ?b) n = map_of ?pd n"
      by (cases "n \<in> set (keyword_capable ?ps)") simp_all
    with entry dflt have "snd (arg_to_value ?b ! j) = (default_value p, ''d'')"
      by simp
    with line show ?thesis by (simp add: named_line_def)
  qed
  from by_pos by_name by_default show ?thesis by blast
qed

lemmas decorate_simps =
  debug_calls_def scan_parameters_def empty_tables_def def_f_def param_def param_default_def

lemmas wrapper_simps =
  wrapper_def report_and_forward_def bind_arguments_def forward_def itertools_product_def
  named_line_def star_pargs_lines_def star_kwarg_line_def raised_def ljust_def

lemmas runtime_simps =
  example_runtime_def FRAMES_TO_SKIP_def get_caller_info_def header_lines_def
  safe_repr_def str_int_def str_tuple_def

lemmas call_simps =
  valid_call_def positional_capable_def keyword_capable_def named_parameters_def
  declares_def supplied_by_position_def supplied_by_name_def

theorem report_categories_witness:
  "\<exists>w. debug_calls (def_f sig_a_b_c_d return_a) = Inr w
     \<and> valid_call ParameterEmpty sig_a_b_c_d [PyInt 1, PyInt 2] [(''c'', PyInt 3)]
     \<and> supplied_by_position sig_a_b_c_d [PyInt 1, PyInt 2] ''a''
     \<and> printed (wrapper w example_runtime [PyInt 1, PyInt 2] [(''c'', PyInt 3)]) ! 3
         = ''(p) a: 1''
     \<and> supplied_by_name sig_a_b_c_d [(''c'', PyInt 3)] ''c''
     \<and> printed (wrapper w example_runtime [PyInt 1, PyInt 2] [(''c'', PyInt 3)]) ! 5
         = ''(k) c: 3''
     \<and> \<not> supplied_by_position sig_a_b_c_d [PyInt 1, PyInt 2] ''d''
     \<and> \<not> supplied_by_name sig_a_b_c_d [(''c'', PyInt 3)] ''d''
     \<and> printed (wrapper w example_runtime [PyInt 1, PyInt 2] [(''c'', PyInt 3)]) ! 6
         = ''(d) d: '' @ [CHR 0x27] @ ''x'' @ [CHR 0x27]"
proof -
  let ?c = "def_f sig_a_b_c_d return_a"
  let ?pargs = "[PyInt 1, PyInt 2]"
  let ?kwargs = "[(''c'', PyInt 3)]"
  obtain w where w: "debug_calls ?c = Inr w" and pad: "pad_length w = 1"
    by (simp add: decorate_simps sig_a_b_c_d_def Let_def)
  have ps: "parameters ?c = sig_a_b_c_d" by (simp add: def_f_def)
  have sig: "distinct (map fst sig_a_b_c_d)"
    by (simp add: sig_a_b_c_d_def)
  have kws: "distinct (map fst ?kwargs)" by simp
  have named: "named_parameters sig_a_b_c_d = sig_a_b_c_d"
    by (simp add: named_parameters_def sig_a_b_c_d_def param_def param_default_def)
  have pos: "positional_capable sig_a_b_c_d = [''a'', ''b'']"
    by (simp add: positional_capable_def sig_a_b_c_d_def param_def param_default_def)
  have kwc: "keyword_capable sig_a_b_c_d = [''b'', ''c'', ''d'']"
    by (simp add: keyword_capable_def sig_a_b_c_d_def param_def param_default_def)
  have sa: "supplied_by_position sig_a_b_c_d ?pargs ''a''"
    and sc: "supplied_by_name sig_a_b_c_d ?kwargs ''c''"
    and nd: "\<not> supplied_by_position sig_a_b_c_d ?pargs ''d''"
            "\<not> supplied_by_name sig_a_b_c_d ?kwargs ''d''"
    by (simp_all add: supplied_by_position_def supplied_by_name_def pos kwc)
  have valid: "valid_call ParameterEmpty sig_a_b_c_d ?pargs ?kwargs"
    unfolding valid_call_def named
    by (simp add: supplied_by_position_def supplied_by_name_def pos kwc)
       (simp add: sig_a_b_c_d_def param_def param_default_def)
  have j0: "named_parameters sig_a_b_c_d ! 0 = (''a'', param POSITIONAL_ONLY)"
    and j2: "named_parameters sig_a_b_c_d ! 2 = (''c'', param KEYWORD_ONLY)"
    and j3: "named_parameters sig_a_b_c_d ! 3 = (''d'', param_default KEYWORD_ONLY (PyStr ''x''))"
    and len: "length (named_parameters sig_a_b_c_d) = 4"
    unfolding named by (simp_all add: sig_a_b_c_d_def)
  note rc = report_categories [OF w, unfolded ps, OF sig kws valid, of _ _ _ example_runtime]
  have l0: "printed (wrapper w example_runtime ?pargs ?kwargs) ! 3 = ''(p) a: 1''"
  proof -
    have "0 < length (named_parameters sig_a_b_c_d)" by (simp add: len)
    note r = rc [OF this j0, THEN conjunct1, rule_format, OF sa]
    then obtain i where i: "i < length ?pargs" "positional_capable sig_a_b_c_d ! i = ''a''"
      and line: "printed (wrapper w example_runtime ?pargs ?kwargs) ! (3 + 0) =
         ''(p) '' @ ljust (pad_length w) ''a'' @ '': ''
           @ safe_repr example_runtime (?pargs ! i) True"
      by blast
    from i have "i = 0" by (cases i) (simp_all add: pos)
    with line show ?thesis
      by (simp add: pad ljust_def safe_repr_def example_runtime_def str_int_def)
  qed
  have l2: "printed (wrapper w example_runtime ?pargs ?kwargs) ! 5 = ''(k) c: 3''"
  proof -
    have "2 < length (named_parameters sig_a_b_c_d)" by (simp add: len)
    note r = rc [OF this j2, THEN conjunct2, THEN conjunct1, rule_format, OF sc]
    then show ?thesis
      by (simp add: pad ljust_def safe_repr_def example_runtime_def str_int_def)
  qed
  have l3: "printed (wrapper w example_runtime ?pargs ?kwargs) ! 6
      = ''(d) d: '' @ [CHR 0x27] @ ''x'' @ [CHR 0x27]"
  proof -
    have "3 < length (named_parameters sig_a_b_c_d)" by (simp add: len)
    note r = rc [OF this j3, THEN conjunct2, THEN conjunct2, rule_format, OF conjI, OF nd]
    then show ?thesis
      by (simp add: pad ljust_def safe_repr_def example_runtime_def param_default_def)
  qed
  from w valid sa sc nd l0 l2 l3 show ?thesis by auto
qed

subsection \<open>Reaching the call of the decorated callable\<close>

lemma star_kwargs_bind:
  "star_kwargs (bind_arguments t pargs kwargs) =
     snd (kwargs_loop (kwarg_names t) kwargs (param_to_default t, []))"
  by (simp add: bind_arguments_def split_beta Let_def)

lemma remaining_unfiltered:
  "remaining_parg_names (bind_arguments t pargs kwargs) = parg_names t"
  by (simp add: bind_arguments_def split_beta Let_def)

lemma star_pargs_bind:
  "star_pargs (bind_arguments t pargs kwargs) = drop (length (parg_names t)) pargs"
  by (simp add: bind_arguments_def split_beta Let_def)

lemma fold_scan_star_names:
  "star_kwargs_name (fold scan_parameter ps t) =
     (if names_of_kind VAR_KEYWORD ps = [] then star_kwargs_name t
      else Some (last (names_of_kind VAR_KEYWORD ps)))
   \<and> star_pargs_name (fold scan_parameter ps t) =
     (if names_of_kind VAR_POSITIONAL ps = [] then star_pargs_name t
      else Some (last (names_of_kind VAR_POSITIONAL ps)))"
proof (induction ps arbitrary: t)
  case Nil
  then show ?case by (simp add: names_of_kind_def)
next
  case (Cons np ps)
  obtain n p where np: "np = (n, p)" by (cases np)
  from Cons.IH [of "scan_parameter (n, p) t"] np show ?case
    by (cases "kind p") (simp_all add: names_of_kind_def)
qed

lemma declares_names: "declares k ps \<longleftrightarrow> names_of_kind k ps \<noteq> []"
  by (induction ps) (auto simp: declares_def names_of_kind_def)

lemma star_kwargs_name_scan:
  "declares VAR_KEYWORD ps \<Longrightarrow>
   star_kwargs_name (scan_parameters ps) = Some (last (names_of_kind VAR_KEYWORD ps))"
  using fold_scan_star_names [of ps empty_tables]
  by (simp add: scan_parameters_def declares_names)

lemma repr_all_printable:
  "list_all (printable rt) xs \<Longrightarrow> \<exists>ss. repr_all (repr rt) xs = Inr ss"
  by (induction xs) (auto simp: printable_def split: sum.splits)

lemma star_pargs_lines_printable:
  assumes "name_opt = None \<or> list_all (printable rt) extra"
  shows "snd (star_pargs_lines (repr rt) name_opt extra) = None"
proof (cases name_opt)
  case None
  then show ?thesis by (simp add: star_pargs_lines_def)
next
  case (Some n)
  with assms obtain ss where "repr_all (repr rt) extra = Inr ss"
    using repr_all_printable by blast
  with Some show ?thesis by (simp add: star_pargs_lines_def str_tuple_def)
qed

lemma surplus_printable_lines:
  assumes "tables w = scan_parameters ps" and "surplus_printable rt ps pargs"
  shows "snd (star_pargs_lines (repr rt) (star_pargs_name (tables w))
               (star_pargs (bind_arguments (tables w) pargs kwargs))) = None"
proof -
  have "star_pargs_name (tables w) = None
        \<or> list_all (printable rt) (star_pargs (bind_arguments (tables w) pargs kwargs))"
    using assms scan_parameters_names(4) [of ps]
    by (auto simp: surplus_printable_def star_pargs_bind scan_parameters_names(1))
  then show ?thesis by (rule star_pargs_lines_printable)
qed

lemma star_kwargs_lines_printable:
  "list_all (\<lambda>(k, x). printable rt x) kvs \<Longrightarrow> snd (star_kwargs_lines (repr rt) pad kvs) = None"
  by (induction kvs) (auto simp: printable_def star_kwarg_line_def split: sum.splits prod.splits)

lemma star_kwargs_lines_member:
  "list_all (\<lambda>(k, x). printable rt x) kvs \<Longrightarrow> (n, v) \<in> set kvs \<Longrightarrow>
   \<exists>s. repr rt v = Inr s
      \<and> ''     '' @ ljust pad n @ '': '' @ s \<in> set (fst (star_kwargs_lines (repr rt) pad kvs))"
  by (induction kvs) (auto simp: printable_def star_kwarg_line_def split: sum.splits prod.splits)

text \<open>The four ways through the report, after the lines of the named parameters.\<close>

lemma report_star_pargs_raises:
  assumes "star_pargs_lines (repr rt) (star_pargs_name (tables w)) (star_pargs b) = (ls, Some e)"
  shows "report_and_forward w rt pargs kwargs b =
     raised (header_lines (callee w) (get_caller_info (frames_to_skip rt) (stack rt))
             @ map (named_line rt (pad_length w)) (arg_to_value b) @ ls) e"
  using assms by (simp add: report_and_forward_def Let_def)

lemma report_without_star_kwargs:
  assumes "star_pargs_lines (repr rt) (star_pargs_name (tables w)) (star_pargs b) = (ls, None)"
    and "star_kwargs_name (tables w) = None"
  shows "report_and_forward w rt pargs kwargs b =
     forward (callee w) pargs kwargs
       (header_lines (callee w) (get_caller_info (frames_to_skip rt) (stack rt))
        @ map (named_line rt (pad_length w)) (arg_to_value b) @ ls)"
  using assms by (simp add: report_and_forward_def Let_def)

lemma report_empty_star_kwargs:
  assumes "star_pargs_lines (repr rt) (star_pargs_name (tables w)) (star_pargs b) = (ls, None)"
    and "star_kwargs_name (tables w) = Some s"
    and "star_kwargs b = []"
  shows "report_and_forward w rt pargs kwargs b =
     raised (header_lines (callee w) (get_caller_info (frames_to_skip rt) (stack rt))
             @ map (named_line rt (pad_length w)) (arg_to_value b) @ ls
             @ ['' **'' @ s @ '':'']) ValueError"
  using assms by (simp add: report_and_forward_def Let_def)

lemma report_with_star_kwargs:
  assumes "star_pargs_lines (repr rt) (star_pargs_name (tables w)) (star_pargs b) = (ls, None)"
    and "star_kwargs_name (tables w) = Some s"
    and "max_len (map fst (star_kwargs b)) = Inr pad"
    and "star_kwargs_lines (repr rt) pad (star_kwargs b) = (ks, r)"
  shows "report_and_forward w rt pargs kwargs b =
     (let out = header_lines (callee w) (get_caller_info (frames_to_skip rt) (stack rt))
                @ map (named_line rt (pad_length w)) (arg_to_value b) @ ls
                @ ['' **'' @ s @ '':''] @ ks
      in case r of Some e \<Rightarrow> raised out e | None \<Rightarrow> forward (callee w) pargs kwargs out)"
  using assms by (cases r) (simp_all add: report_and_forward_def Let_def)

lemma max_len_nonempty: "ns \<noteq> [] \<Longrightarrow> \<exists>pad. max_len ns = Inr pad"
  by (cases ns) simp_all

text \<open>
  Claim C4. When the decorated callable declares a \<^verbatim>\<open>**kwargs\<close> parameter and every
  keyword argument of a call has the name of a keyword-capable parameter, the collection
  of excess keyword arguments is empty, the wrapper raises an exception while it prints
  the report and never calls the underlying callable. Unless the \<^verbatim>\<open>repr\<close> of a surplus
  positional argument has raised before, the exception is the \<^verbatim>\<open>ValueError\<close> of \<^verbatim>\<open>max\<close>
  over that empty collection, raised right after the \<^verbatim>\<open>**\<close> heading is printed.
\<close>

theorem empty_star_kwargs_raises:
  assumes dec: "debug_calls c = Inr w"
    and var: "declares VAR_KEYWORD (parameters c)"
    and all: "set (map fst kwargs) \<subseteq> set (keyword_capable (parameters c))"
  shows "star_kwargs (bind_arguments (tables w) pargs kwargs) = []
       \<and> calls (wrapper w rt pargs kwargs) = []
       \<and> (\<exists>e. result (wrapper w rt pargs kwargs) = Inl e)
       \<and> star_kwargs_name (tables w) = Some (last (names_of_kind VAR_KEYWORD (parameters c)))
       \<and> (surplus_printable rt (parameters c) pargs \<longrightarrow>
            result (wrapper w rt pargs kwargs) = Inl ValueError
            \<and> last (printed (wrapper w rt pargs kwargs))
                = '' **'' @ last (names_of_kind VAR_KEYWORD (parameters c)) @ '':'')"
proof -
  let ?b = "bind_arguments (tables w) pargs kwargs"
  let ?s = "last (names_of_kind VAR_KEYWORD (parameters c))"
  from dec have tw: "tables w = scan_parameters (parameters c)"
    by (simp add: debug_calls_Inr)
  with var have s: "star_kwargs_name (tables w) = Some ?s"
    by (simp add: star_kwargs_name_scan)
  from all have "fst ` set kwargs \<subseteq> set (kwarg_names (tables w))"
    by (simp add: tw scan_parameters_names)
  then have e: "star_kwargs ?b = []"
    by (simp add: star_kwargs_bind kwargs_loop_no_star)
  obtain ls r where sp:
    "star_pargs_lines (repr rt) (star_pargs_name (tables w)) (star_pargs ?b) = (ls, r)"
    by (cases "star_pargs_lines (repr rt) (star_pargs_name (tables w)) (star_pargs ?b)")
  have raises: "calls (wrapper w rt pargs kwargs) = []
      \<and> (\<exists>e. result (wrapper w rt pargs kwargs) = Inl e)"
  proof (cases r)
    case None
    with sp report_empty_star_kwargs [OF _ s e, of rt ls pargs kwargs] show ?thesis
      by (simp add: wrapper_def raised_def)
  next
    case (Some x)
    with sp report_star_pargs_raises [of rt w ?b ls x pargs kwargs] show ?thesis
      by (simp add: wrapper_def raised_def)
  qed
  have value_error: "result (wrapper w rt pargs kwargs) = Inl ValueError
      \<and> last (printed (wrapper w rt pargs kwargs)) = '' **'' @ ?s @ '':''"
    if "surplus_printable rt (parameters c) pargs"
  proof -
    from surplus_printable_lines [OF tw that, of kwargs] sp have "r = None" by simp
    with sp report_empty_star_kwargs [OF _ s e, of rt ls pargs kwargs] show ?thesis
      by (simp add: wrapper_def raised_def)
  qed
  from e raises s value_error show ?thesis by blast
qed

theorem empty_star_kwargs_raises_witness:
  "(\<exists>w. debug_calls (def_f sig_a_kw return_a) = Inr w
      \<and> declares VAR_KEYWORD sig_a_kw
      \<and> result (wrapper w example_runtime [PyInt 1] []) = Inl ValueError
      \<and> calls (wrapper w example_runtime [PyInt 1] []) = []
      \<and> result (wrapper w example_runtime [] [(''a'', PyInt 1)]) = Inl ValueError
      \<and> calls (wrapper w example_runtime [] [(''a'', PyInt 1)]) = [])
   \<and> (\<exists>w. debug_calls (def_f sig_a_args_kw return_a) = Inr w
      \<and> declares VAR_KEYWORD sig_a_args_kw
      \<and> surplus_printable example_runtime sig_a_args_kw [PyInt 1, PyInt 2]
      \<and> result (wrapper w example_runtime [PyInt 1, PyInt 2] []) = Inl ValueError
      \<and> last (printed (wrapper w example_runtime [PyInt 1, PyInt 2] [])) = '' **kw:''
      \<and> calls (wrapper w example_runtime [PyInt 1, PyInt 2] []) = [])"
proof -
  have first: "\<exists>w. debug_calls (def_f sig_a_kw return_a) = Inr w
      \<and> declares VAR_KEYWORD sig_a_kw
      \<and> result (wrapper w example_runtime [PyInt 1] []) = Inl ValueError
      \<and> calls (wrapper w example_runtime [PyInt 1] []) = []
      \<and> result (wrapper w example_runtime [] [(''a'', PyInt 1)]) = Inl ValueError
      \<and> calls (wrapper w example_runtime [] [(''a'', PyInt 1)]) = []"
  proof -
    let ?c = "def_f sig_a_kw return_a"
    obtain w where w: "debug_calls ?c = Inr w"
      by (simp add: decorate_simps sig_a_kw_def Let_def)
    have ps: "parameters ?c = sig_a_kw" by (simp add: def_f_def)
    have var: "declares VAR_KEYWORD sig_a_kw"
      by (simp add: declares_def sig_a_kw_def param_def)
    have kwc: "keyword_capable sig_a_kw = [''a'']"
      by (simp add: keyword_capable_def sig_a_kw_def param_def)
    have k1: "set (map fst ([] :: (string, pyval) dict)) \<subseteq> set (keyword_capable sig_a_kw)"
      and k2: "set (map fst [(''a'', PyInt 1)]) \<subseteq> set (keyword_capable sig_a_kw)"
      by (simp_all add: kwc)
    have sp: "surplus_printable example_runtime sig_a_kw pargs" for pargs
      by (simp add: surplus_printable_def declares_def sig_a_kw_def param_def)
    note r = empty_star_kwargs_raises [OF w, unfolded ps, OF var]
    from r [OF k1, of "[PyInt 1]" example_runtime] r [OF k2, of "[]" example_runtime] w var sp
    show ?thesis by simp
  qed
  have second: "\<exists>w. debug_calls (def_f sig_a_args_kw return_a) = Inr w
      \<and> declares VAR_KEYWORD sig_a_args_kw
      \<and> surplus_printable example_runtime sig_a_args_kw [PyInt 1, PyInt 2]
      \<and> result (wrapper w example_runtime [PyInt 1, PyInt 2] []) = Inl ValueError
      \<and> last (printed (wrapper w example_runtime [PyInt 1, PyInt 2] [])) = '' **kw:''
      \<and> calls (wrapper w example_runtime [PyInt 1, PyInt 2] []) = []"
  proof -
    let ?c = "def_f sig_a_args_kw return_a"
    obtain w where w: "debug_calls ?c = Inr w"
      by (simp add: decorate_simps sig_a_args_kw_def Let_def)
    have ps: "parameters ?c = sig_a_args_kw" by (simp add: def_f_def)
    have var: "declares VAR_KEYWORD sig_a_args_kw"
      by (simp add: declares_def sig_a_args_kw_def param_def)
    have kwc: "keyword_capable sig_a_args_kw = [''a'']"
      by (simp add: keyword_capable_def sig_a_args_kw_def param_def)
    have k: "set (map fst ([] :: (string, pyval) dict)) \<subseteq> set (keyword_capable sig_a_args_kw)"
      by simp
    have names: "names_of_kind VAR_KEYWORD sig_a_args_kw = [''kw'']"
      by (simp add: names_of_kind_def sig_a_args_kw_def param_def)
    have sp: "surplus_printable example_runtime sig_a_args_kw [PyInt 1, PyInt 2]"
      by (simp add: surplus_printable_def positional_capable_def sig_a_args_kw_def param_def
            printable_def example_runtime_def)
    from empty_star_kwargs_raises [OF w, unfolded ps, OF var k, of "[PyInt 1, PyInt 2]"
        example_runtime] w var sp names
    show ?thesis by simp
  qed
  from first second show ?thesis by blast
qed

text \<open>
  Claim C1 says that the wrapper returns what the undecorated callable returns, for every
  valid call. For \<^verbatim>\<open>def f(a, **kw): return a\<close> the call \<^verbatim>\<open>f(1)\<close> is valid and returns 1,
  while the wrapper raises \<^verbatim>\<open>ValueError\<close> and does not call \<^verbatim>\<open>f\<close>.
\<close>

theorem wrapper_raises_where_callable_returns:
  "valid_call ParameterEmpty sig_a_kw [PyInt 1] []
   \<and> call (def_f sig_a_kw return_a) [PyInt 1] [] = Inr (PyInt 1)
   \<and> (\<exists>out. decorate_and_call (def_f sig_a_kw return_a) rt [PyInt 1] [] = Inr out
          \<and> result out = Inl ValueError \<and> calls out = [])"
  by (simp add: decorate_and_call_def decorate_simps wrapper_simps call_simps sig_a_kw_def
        return_a_def Let_def)

theorem wrapper_raises_where_callable_returns_witness:
  "valid_call ParameterEmpty sig_a_kw [PyInt 1] []
   \<and> return_a [PyInt 1] [] = Inr (PyInt 1)
   \<and> (\<exists>out. decorate_and_call (def_f sig_a_kw return_a) example_runtime [PyInt 1] [] = Inr out
          \<and> result out = Inl ValueError \<and> calls out = [])"
  using wrapper_raises_where_callable_returns [of example_runtime]
  by (simp add: def_f_def)

text \<open>
  Claim C3 says that decorating a callable without named parameters does not crash.
  Decorating \<^verbatim>\<open>def f(*args, **kwargs)\<close> or \<^verbatim>\<open>def f()\<close> raises \<^verbatim>\<open>ValueError\<close>: the
  width is a \<^verbatim>\<open>max\<close> over no name.
\<close>

theorem decoration_raises_without_named_parameters:
  "debug_calls (def_f sig_args_kwargs body) = Inl ValueError
   \<and> debug_calls (def_f [] body) = Inl ValueError"
  by (simp add: decorate_simps sig_args_kwargs_def Let_def)

lemma valid_call_a_b0: "valid_call ParameterEmpty sig_a_b0 [] [(''a'', PyInt 1)]"
  by (simp add: call_simps sig_a_b0_def param_def param_default_def)

text \<open>
  Claim C2 says that the names paired with the positional arguments exclude the names
  that are keys of the keyword arguments. For \<^verbatim>\<open>def f(a, b=0)\<close> the valid call
  \<^verbatim>\<open>f(a=1)\<close> leaves both \<open>a\<close> and \<open>b\<close> in the list, and the call \<^verbatim>\<open>f(5, a=1)\<close> pairs 5
  with \<open>a\<close>, which is then reported with the letter \<open>p\<close> and not \<open>k\<close>.
\<close>

theorem keyword_supplied_name_not_filtered:
  "\<exists>w. debug_calls (def_f sig_a_b0 return_a) = Inr w
     \<and> remaining_parg_names (bind_arguments (tables w) [] [(''a'', PyInt 1)]) = [''a'', ''b'']
     \<and> remaining_parg_names (bind_arguments (tables w) [PyInt 5] [(''a'', PyInt 1)])
         = [''a'', ''b'']
     \<and> arg_to_value (bind_arguments (tables w) [PyInt 5] [(''a'', PyInt 1)])
         = [(''a'', PyInt 5, ''p''), (''b'', PyInt 0, ''d'')]
     \<and> star_pargs (bind_arguments (tables w) [PyInt 5] [(''a'', PyInt 1)]) = []"
  by (simp add: decorate_simps wrapper_simps call_simps sig_a_b0_def Let_def)

subsection \<open>Keyword arguments that match no keyword-capable parameter\<close>

lemma positional_only_not_keyword_capable:
  assumes "distinct (map fst ps)" and "(n, p) \<in> set ps" and "kind p = POSITIONAL_ONLY"
  shows "n \<notin> set (keyword_capable ps)"
proof
  assume "n \<in> set (keyword_capable ps)"
  then obtain q where q: "(n, q) \<in> set ps"
    and k: "kind q = POSITIONAL_OR_KEYWORD \<or> kind q = KEYWORD_ONLY"
    by (auto simp: keyword_capable_def)
  from assms(1,2) q have "q = p" by (meson eq_key_imp_eq_value)
  with k assms(3) show False by simp
qed

lemma excess_printable_star_kwargs:
  assumes "excess_printable rt ps kwargs" and "declares VAR_KEYWORD ps"
  shows "list_all (\<lambda>(k, x). printable rt x)
           (filter (\<lambda>(k, v). k \<notin> set (keyword_capable ps)) kwargs)"
  using assms by (auto simp: excess_printable_def list_all_iff)

text \<open>
  Claim C10 says that a keyword argument with the name of a positional-only parameter is
  still forwarded to the underlying callable. For \<^verbatim>\<open>def f(a, /, **kw): return a\<close> and
  the call \<^verbatim>\<open>f(1, a=v)\<close> with a value \<open>v\<close> whose \<^verbatim>\<open>repr\<close> raises, the undecorated call
  returns 1, while the wrapper prints the \<^verbatim>\<open>**\<close> heading, raises the exception of
  \<^verbatim>\<open>repr\<close> when it writes the line of \<open>v\<close>, and does not call \<^verbatim>\<open>f\<close>. For
  \<^verbatim>\<open>def f(a, /, *args, **kw): return a\<close> and the call \<^verbatim>\<open>f(1, v, a=2)\<close> the wrapper raises
  when it writes the tuple of the surplus positional arguments, and does not call \<^verbatim>\<open>f\<close>
  either.
\<close>

theorem positional_only_name_as_keyword_counterexample:
  "return_a [PyInt 1] [(''a'', Unprintable)] = Inr (PyInt 1)
   \<and> decorate_and_call (def_f sig_a_only_kw return_a) example_runtime
        [PyInt 1] [(''a'', Unprintable)] =
      Inr \<lparr>printed =
             [[], BOLD_CODE @ UNDERLINE_CODE @ ''__main__.f'' @ END_CODE,
              ''Called by main at app.py:12 '', ''(p) a: 1'', '' **kw:''],
           calls = [],
           result = Inl (Exception ''__repr__'')\<rparr>
   \<and> return_a [PyInt 1, Unprintable] [(''a'', PyInt 2)] = Inr (PyInt 1)
   \<and> decorate_and_call (def_f sig_a_only_args_kw return_a) example_runtime
        [PyInt 1, Unprintable] [(''a'', PyInt 2)] =
      Inr \<lparr>printed =
             [[], BOLD_CODE @ UNDERLINE_CODE @ ''__main__.f'' @ END_CODE,
              ''Called by main at app.py:12 '', ''(p) a: 1'', '' *args:''],
           calls = [],
           result = Inl (Exception ''__repr__'')\<rparr>"
  by (simp add: decorate_and_call_def decorate_simps wrapper_simps runtime_simps
        sig_a_only_kw_def sig_a_only_args_kw_def return_a_def Let_def)

text \<open>
  Claim C10, amended. A keyword argument whose name is the name of a positional-only
  parameter goes to the excess keyword arguments, and the parameter is never given the
  letter \<open>k\<close>. When the callable declares no \<^verbatim>\<open>**kwargs\<close> parameter, the wrapper prints
  the header lines, the lines of the named parameters and the \<^verbatim>\<open>*args\<close> lines and nothing
  else. When \<^verbatim>\<open>repr\<close> raises on no surplus positional argument and on no excess keyword
  argument that the report writes, the wrapper calls the underlying callable with the
  arguments it was given and returns what that call returns, and, when the callable
  declares a \<^verbatim>\<open>**kwargs\<close> parameter, the argument is printed on a line of its own after
  the \<^verbatim>\<open>**\<close> heading, which carries the name of that parameter.
\<close>

theorem positional_only_name_as_keyword:
  assumes dec: "debug_calls c = Inr w"
    and sig: "distinct (map fst (parameters c))"
    and kws: "distinct (map fst kwargs)"
    and np: "(n, p) \<in> set (parameters c)"
    and po: "kind p = POSITIONAL_ONLY"
    and kv: "(n, v) \<in> set kwargs"
  shows "(n, v) \<in> set (star_kwargs (bind_arguments (tables w) pargs kwargs))
     \<and> (\<forall>x. (n, x, ''k'') \<notin> set (arg_to_value (bind_arguments (tables w) pargs kwargs)))
     \<and> (\<not> declares VAR_KEYWORD (parameters c) \<longrightarrow>
          printed (wrapper w rt pargs kwargs) =
            header_lines c (get_caller_info (frames_to_skip rt) (stack rt))
            @ map (named_line rt (pad_length w))
                (arg_to_value (bind_arguments (tables w) pargs kwargs))
            @ fst (star_pargs_lines (repr rt) (star_pargs_name (tables w))
                    (star_pargs (bind_arguments (tables w) pargs kwargs))))
     \<and> (surplus_printable rt (parameters c) pargs \<and> excess_printable rt (parameters c) kwargs
          \<longrightarrow>
          result (wrapper w rt pargs kwargs) = call c pargs kwargs
          \<and> calls (wrapper w rt pargs kwargs) = [(pargs, kwargs)]
          \<and> (declares VAR_KEYWORD (parameters c) \<longrightarrow>
               (\<exists>pad s.
                  max_len (map fst (star_kwargs (bind_arguments (tables w) pargs kwargs)))
                    = Inr pad
                  \<and> repr rt v = Inr s
                  \<and> printed (wrapper w rt pargs kwargs) =
                      header_lines c (get_caller_info (frames_to_skip rt) (stack rt))
                      @ map (named_line rt (pad_length w))
                          (arg_to_value (bind_arguments (tables w) pargs kwargs))
                      @ fst (star_pargs_lines (repr rt) (star_pargs_name (tables w))
                              (star_pargs (bind_arguments (tables w) pargs kwargs)))
                      @ ['' **'' @ last (names_of_kind VAR_KEYWORD (parameters c)) @ '':'']
                      @ fst (star_kwargs_lines (repr rt) pad
                              (star_kwargs (bind_arguments (tables w) pargs kwargs)))
                  \<and> ''     '' @ ljust pad n @ '': '' @ s
                      \<in> set (fst (star_kwargs_lines (repr rt) pad
                                 (star_kwargs (bind_arguments (tables w) pargs kwargs)))))))"
proof -
  let ?ps = "parameters c"
  let ?b = "bind_arguments (tables w) pargs kwargs"
  let ?pd = "map (\<lambda>(n, p). (n, default_value p, ''d'')) (named_parameters ?ps)"
  let ?kvs = "zip (positional_capable ?ps) (map (\<lambda>v. (v, ''p'')) pargs)"
  let ?pre = "header_lines c (get_caller_info (frames_to_skip rt) (stack rt))
              @ map (named_line rt (pad_length w)) (arg_to_value ?b)"
  let ?s = "last (names_of_kind VAR_KEYWORD ?ps)"
  from dec have tw: "tables w = scan_parameters ?ps" and cw: "callee w = c"
    by (simp_all add: debug_calls_Inr)
  then have b: "?b = bind_arguments (scan_parameters ?ps) pargs kwargs" by simp
  note bind = bind_arguments_scan [OF sig b]
  have nkc: "n \<notin> set (keyword_capable ?ps)"
    using sig np po by (rule positional_only_not_keyword_capable)
  have excess: "(n, v) \<in> set (star_kwargs ?b)"
    using bind(4) [OF kws] kv nkc by simp
  then have ne: "map fst (star_kwargs ?b) \<noteq> []" by auto
  have not_k: "(n, x, ''k'') \<notin> set (arg_to_value ?b)" for x
  proof
    assume "(n, x, ''k'') \<in> set (arg_to_value ?b)"
    moreover have "distinct (map fst (arg_to_value ?b))"
      using bind(3) distinct_named_parameters [OF sig] by simp
    ultimately have m: "map_of (arg_to_value ?b) n = Some (x, ''k'')" by simp
    show False
    proof (cases "map_of ?kvs n")
      case None
      with m bind(6) [OF kws, of n] nkc have "map_of ?pd n = Some (x, ''k'')" by simp
      then have "(n, x, ''k'') \<in> set ?pd" by (rule map_of_SomeD)
      then show False by auto
    next
      case (Some y)
      with m bind(6) [OF kws, of n] have "map_of ?kvs n = Some (x, ''k'')" by simp
      then have "(n, x, ''k'') \<in> set ?kvs" by (rule map_of_SomeD)
      then have "(x, ''k'') \<in> set (map (\<lambda>v. (v, ''p'')) pargs)" by (rule set_zip_rightD)
      then show False by auto
    qed
  qed
  obtain ls r where sp:
    "star_pargs_lines (repr rt) (star_pargs_name (tables w)) (star_pargs ?b) = (ls, r)"
    by (cases "star_pargs_lines (repr rt) (star_pargs_name (tables w)) (star_pargs ?b)")
  have undeclared: "printed (wrapper w rt pargs kwargs) = ?pre @ ls"
    if "\<not> declares VAR_KEYWORD ?ps"
  proof -
    from that have none: "star_kwargs_name (tables w) = None"
      using scan_parameters_names(3) [of ?ps] tw by simp
    show ?thesis
    proof (cases r)
      case None
      with sp report_without_star_kwargs [OF _ none, of rt ?b ls pargs kwargs] cw
      show ?thesis by (simp add: wrapper_def forward_def)
    next
      case (Some e)
      with sp report_star_pargs_raises [of rt w ?b ls e pargs kwargs] cw
      show ?thesis by (simp add: wrapper_def raised_def)
    qed
  qed
  have forwarded: "result (wrapper w rt pargs kwargs) = call c pargs kwargs
      \<and> calls (wrapper w rt pargs kwargs) = [(pargs, kwargs)]
      \<and> (declares VAR_KEYWORD ?ps \<longrightarrow>
           (\<exists>pad s. max_len (map fst (star_kwargs ?b)) = Inr pad
              \<and> repr rt v = Inr s
              \<and> printed (wrapper w rt pargs kwargs) =
                  ?pre @ ls @ ['' **'' @ ?s @ '':'']
                  @ fst (star_kwargs_lines (repr rt) pad (star_kwargs ?b))
              \<and> ''     '' @ ljust pad n @ '': '' @ s
                  \<in> set (fst (star_kwargs_lines (repr rt) pad (star_kwargs ?b)))))"
    if surplus: "surplus_printable rt ?ps pargs" and exc: "excess_printable rt ?ps kwargs"
  proof (cases "declares VAR_KEYWORD ?ps")
    case False
    then have none: "star_kwargs_name (tables w) = None"
      using scan_parameters_names(3) [of ?ps] tw by simp
    from surplus_printable_lines [OF tw surplus, of kwargs] sp have "r = None" by simp
    with sp report_without_star_kwargs [OF _ none, of rt ?b ls pargs kwargs] cw False
    show ?thesis by (simp add: wrapper_def forward_def)
  next
    case True
    then have s: "star_kwargs_name (tables w) = Some ?s"
      by (simp add: tw star_kwargs_name_scan)
    from surplus_printable_lines [OF tw surplus, of kwargs] sp have r: "r = None" by simp
    from ne obtain pad where pad: "max_len (map fst (star_kwargs ?b)) = Inr pad"
      using max_len_nonempty by blast
    have pr: "list_all (\<lambda>(k, x). printable rt x) (star_kwargs ?b)"
      using excess_printable_star_kwargs [OF exc True] bind(4) [OF kws] by simp
    obtain ks where ks: "star_kwargs_lines (repr rt) pad (star_kwargs ?b) = (ks, None)"
      using star_kwargs_lines_printable [OF pr, of pad]
      by (cases "star_kwargs_lines (repr rt) pad (star_kwargs ?b)") simp
    from star_kwargs_lines_member [OF pr excess, of pad] ks
    obtain t where t: "repr rt v = Inr t" "''     '' @ ljust pad n @ '': '' @ t \<in> set ks"
      by auto
    from sp r report_with_star_kwargs [OF _ s pad ks, of ls pargs kwargs] cw
    have "wrapper w rt pargs kwargs =
        forward c pargs kwargs (?pre @ ls @ ['' **'' @ ?s @ '':''] @ ks)"
      by (simp add: wrapper_def)
    with pad t ks show ?thesis by (auto simp: forward_def)
  qed
  from excess not_k undeclared forwarded sp show ?thesis by simp
qed

theorem positional_only_name_as_keyword_witness:
  "(\<exists>w. debug_calls (def_f sig_a_only_kw return_a) = Inr w
      \<and> declares VAR_KEYWORD sig_a_only_kw
      \<and> surplus_printable example_runtime sig_a_only_kw [PyInt 1]
      \<and> excess_printable example_runtime sig_a_only_kw [(''a'', PyInt 2)]
      \<and> star_kwargs (bind_arguments (tables w) [PyInt 1] [(''a'', PyInt 2)]) = [(''a'', PyInt 2)]
      \<and> arg_to_value (bind_arguments (tables w) [PyInt 1] [(''a'', PyInt 2)])
          = [(''a'', PyInt 1, ''p'')]
      \<and> drop 4 (printed (wrapper w example_runtime [PyInt 1] [(''a'', PyInt 2)]))
          = ['' **kw:'', ''     a: 2'']
      \<and> result (wrapper w example_runtime [PyInt 1] [(''a'', PyInt 2)]) = Inr (PyInt 1)
      \<and> calls (wrapper w example_runtime [PyInt 1] [(''a'', PyInt 2)])
          = [([PyInt 1], [(''a'', PyInt 2)])])
   \<and> (\<exists>w. debug_calls (def_f sig_a_only return_a) = Inr w
      \<and> \<not> declares VAR_KEYWORD sig_a_only
      \<and> star_kwargs (bind_arguments (tables w) [PyInt 1] [(''a'', PyInt 2)]) = [(''a'', PyInt 2)]
      \<and> drop 3 (printed (wrapper w example_runtime [PyInt 1] [(''a'', PyInt 2)]))
          = [''(p) a: 1'']
      \<and> calls (wrapper w example_runtime [PyInt 1] [(''a'', PyInt 2)])
          = [([PyInt 1], [(''a'', PyInt 2)])])"
proof -
  let ?pargs = "[PyInt 1]"
  let ?kwargs = "[(''a'', PyInt 2)]"
  have kws: "distinct (map fst ?kwargs)" by simp
  have kv: "(''a'', PyInt 2) \<in> set ?kwargs" by simp
  have po: "kind (param POSITIONAL_ONLY) = POSITIONAL_ONLY" by (simp add: param_def)
  have first: "\<exists>w. debug_calls (def_f sig_a_only_kw return_a) = Inr w
      \<and> declares VAR_KEYWORD sig_a_only_kw
      \<and> surplus_printable example_runtime sig_a_only_kw ?pargs
      \<and> excess_printable example_runtime sig_a_only_kw ?kwargs
      \<and> star_kwargs (bind_arguments (tables w) ?pargs ?kwargs) = [(''a'', PyInt 2)]
      \<and> arg_to_value (bind_arguments (tables w) ?pargs ?kwargs) = [(''a'', PyInt 1, ''p'')]
      \<and> drop 4 (printed (wrapper w example_runtime ?pargs ?kwargs))
          = ['' **kw:'', ''     a: 2'']
      \<and> result (wrapper w example_runtime ?pargs ?kwargs) = Inr (PyInt 1)
      \<and> calls (wrapper w example_runtime ?pargs ?kwargs) = [(?pargs, ?kwargs)]"
  proof -
    let ?c = "def_f sig_a_only_kw return_a"
    obtain w where w: "debug_calls ?c = Inr w"
      and tw: "tables w = scan_parameters sig_a_only_kw"
      by (simp add: decorate_simps sig_a_only_kw_def Let_def)
    have ps: "parameters ?c = sig_a_only_kw" and body: "call ?c = return_a"
      by (simp_all add: def_f_def)
    have sig: "distinct (map fst sig_a_only_kw)" by (simp add: sig_a_only_kw_def)
    have np: "(''a'', param POSITIONAL_ONLY) \<in> set sig_a_only_kw"
      by (simp add: sig_a_only_kw_def)
    have var: "declares VAR_KEYWORD sig_a_only_kw"
      by (simp add: declares_def sig_a_only_kw_def param_def)
    have surplus: "surplus_printable example_runtime sig_a_only_kw ?pargs"
      by (simp add: surplus_printable_def declares_def sig_a_only_kw_def param_def)
    have exc: "excess_printable example_runtime sig_a_only_kw ?kwargs"
      by (simp add: excess_printable_def printable_def example_runtime_def)
    have sk: "star_kwargs (bind_arguments (tables w) ?pargs ?kwargs) = [(''a'', PyInt 2)]"
      and av: "arg_to_value (bind_arguments (tables w) ?pargs ?kwargs) = [(''a'', PyInt 1, ''p'')]"
      by (simp_all add: tw decorate_simps wrapper_simps sig_a_only_kw_def Let_def)
    note r = positional_only_name_as_keyword [OF w, unfolded ps body, OF sig kws np po kv,
        of ?pargs example_runtime]
    have out: "drop 4 (printed (wrapper w example_runtime ?pargs ?kwargs))
        = ['' **kw:'', ''     a: 2'']"
      using w [symmetric]
      by (simp add: decorate_simps wrapper_simps runtime_simps sig_a_only_kw_def Let_def)
    from r surplus exc
    have "result (wrapper w example_runtime ?pargs ?kwargs) = return_a ?pargs ?kwargs"
      and "calls (wrapper w example_runtime ?pargs ?kwargs) = [(?pargs, ?kwargs)]"
      by simp_all
    with w var surplus exc sk av out show ?thesis by (auto simp: return_a_def)
  qed
  have second: "\<exists>w. debug_calls (def_f sig_a_only return_a) = Inr w
      \<and> \<not> declares VAR_KEYWORD sig_a_only
      \<and> star_kwargs (bind_arguments (tables w) ?pargs ?kwargs) = [(''a'', PyInt 2)]
      \<and> drop 3 (printed (wrapper w example_runtime ?pargs ?kwargs)) = [''(p) a: 1'']
      \<and> calls (wrapper w example_runtime ?pargs ?kwargs) = [(?pargs, ?kwargs)]"
  proof -
    let ?c = "def_f sig_a_only return_a"
    obtain w where w: "debug_calls ?c = Inr w"
      and tw: "tables w = scan_parameters sig_a_only" and pad: "pad_length w = 1"
      by (simp add: decorate_simps sig_a_only_def Let_def)
    have ps: "parameters ?c = sig_a_only" and body: "call ?c = return_a"
      by (simp_all add: def_f_def)
    have sig: "distinct (map fst sig_a_only)" by (simp add: sig_a_only_def)
    have np: "(''a'', param POSITIONAL_ONLY) \<in> set sig_a_only"
      by (simp add: sig_a_only_def)
    have var: "\<not> declares VAR_KEYWORD sig_a_only"
      by (simp add: declares_def sig_a_only_def param_def)
    have surplus: "surplus_printable example_runtime sig_a_only ?pargs"
      by (simp add: surplus_printable_def declares_def sig_a_only_def param_def)
    have exc: "excess_printable example_runtime sig_a_only ?kwargs"
      by (simp add: excess_printable_def var)
    have sk: "star_kwargs (bind_arguments (tables w) ?pargs ?kwargs) = [(''a'', PyInt 2)]"
      and av: "arg_to_value (bind_arguments (tables w) ?pargs ?kwargs) = [(''a'', PyInt 1, ''p'')]"
      and sp: "star_pargs_name (tables w) = None"
      by (simp_all add: tw decorate_simps wrapper_simps sig_a_only_def Let_def)
    note r = positional_only_name_as_keyword [OF w, unfolded ps body, OF sig kws np po kv,
        of ?pargs example_runtime]
    from r var have "printed (wrapper w example_runtime ?pargs ?kwargs) =
        header_lines ?c (get_caller_info (frames_to_skip example_runtime) (stack example_runtime))
        @ map (named_line example_runtime (pad_length w)) [(''a'', PyInt 1, ''p'')]"
      unfolding av sp by (simp add: star_pargs_lines_def)
    then have out: "drop 3 (printed (wrapper w example_runtime ?pargs ?kwargs)) = [''(p) a: 1'']"
      by (simp add: length_header_lines pad named_line_def ljust_def
            safe_repr_def example_runtime_def str_int_def)
    from r surplus exc have "calls (wrapper w example_runtime ?pargs ?kwargs) = [(?pargs, ?kwargs)]"
      by simp
    with w var sk out show ?thesis by auto
  qed
  from first second show ?thesis by blast
qed

subsection \<open>The static tables in the store\<close>

lemma store_kwargs_loop_eq:
  "a < length h \<Longrightarrow>
   store_kwargs_loop kwn a kws (h, s) =
     (h[a := fst (kwargs_loop kwn kws (h ! a, s))], snd (kwargs_loop kwn kws (h ! a, s)))"
proof (induction kws arbitrary: h s)
  case Nil
  then show ?case by simp
next
  case (Cons kv kws)
  obtain k v where kv: "kv = (k, v)" by (cases kv)
  show ?case
  proof (cases "k \<in> set kwn")
    case True
    let ?h = "store_setitem a k (v, ''k'') h"
    from Cons.prems have "a < length ?h" and "?h ! a = setitem k (v, ''k'') (h ! a)"
      by (simp_all add: store_setitem_def)
    with Cons.IH [of ?h s] kv True show ?thesis
      by (simp add: store_setitem_def)
  next
    case False
    with Cons.IH [OF Cons.prems, of "setitem k v s"] kv show ?thesis by simp
  qed
qed

lemma store_dict_update_eq:
  "a < length h \<Longrightarrow> store_dict_update a kvs h = h[a := dict_update kvs (h ! a)]"
proof (induction kvs arbitrary: h)
  case Nil
  then show ?case by simp
next
  case (Cons kv kvs)
  obtain k v where kv: "kv = (k, v)" by (cases kv)
  let ?h = "store_setitem a k v h"
  from Cons.prems have "a < length ?h" and "?h ! a = setitem k v (h ! a)"
    by (simp_all add: store_setitem_def)
  with Cons.IH [of ?h] kv show ?case
    by (simp add: store_setitem_def)
qed

lemma store_bind_arguments_eq:
  assumes "pd < length h" and "h ! pd = param_to_default t"
  shows "store_bind_arguments t pd pargs kwargs h =
     (bind_arguments t pargs kwargs, h @ [arg_to_value (bind_arguments t pargs kwargs)])"
proof -
  let ?a = "length h"
  let ?h1 = "h @ [param_to_default t]"
  let ?loop = "kwargs_loop (kwarg_names t) kwargs (param_to_default t, [])"
  let ?kvs = "zip (parg_names t) (itertools_product pargs ''p'')"
  have copy: "dict_copy pd h = (?a, ?h1)"
    using assms by (simp add: dict_copy_def alloc_def)
  have "?a < length ?h1" by simp
  from store_kwargs_loop_eq [OF this, of "kwarg_names t" kwargs "[]"]
  have loop: "store_kwargs_loop (kwarg_names t) ?a kwargs (?h1, []) = (h @ [fst ?loop], snd ?loop)"
    by simp
  have "?a < length (h @ [fst ?loop])" by simp
  from store_dict_update_eq [OF this, of ?kvs]
  have upd: "store_dict_update ?a ?kvs (h @ [fst ?loop]) = h @ [dict_update ?kvs (fst ?loop)]"
    by simp
  show ?thesis
    by (simp add: store_bind_arguments_def copy loop upd bind_arguments_def split_beta Let_def)
qed

lemma store_wrapper_eq:
  assumes "table_at w pd h"
  shows "store_wrapper w pd rt pargs kwargs h =
     (wrapper w rt pargs kwargs,
      h @ [arg_to_value (bind_arguments (tables w) pargs kwargs)])"
  using assms
  by (simp add: store_wrapper_def wrapper_def table_at_def store_bind_arguments_eq)

lemma table_at_append: "table_at w pd h \<Longrightarrow> table_at w pd (h @ h')"
  by (simp add: table_at_def nth_append)

lemma store_invocations_eq:
  "table_at w pd h \<Longrightarrow>
   fst (store_invocations w pd cs h) = map (\<lambda>(rt, pargs, kwargs). wrapper w rt pargs kwargs) cs
   \<and> (\<exists>h'. snd (store_invocations w pd cs h) = h @ h')"
proof (induction cs arbitrary: h)
  case Nil
  then show ?case by simp
next
  case (Cons call cs)
  obtain rt pargs kwargs where call: "call = (rt, pargs, kwargs)" by (cases call)
  let ?h1 = "h @ [arg_to_value (bind_arguments (tables w) pargs kwargs)]"
  from Cons.prems have t1: "table_at w pd ?h1" by (rule table_at_append)
  from Cons.IH [OF t1] obtain h' where
    outs: "fst (store_invocations w pd cs ?h1) =
             map (\<lambda>(rt, pargs, kwargs). wrapper w rt pargs kwargs) cs"
    and h': "snd (store_invocations w pd cs ?h1) = ?h1 @ h'" by blast
  from outs h' call store_wrapper_eq [OF Cons.prems, of rt pargs kwargs]
  show ?case by (simp add: split_beta)
qed

text \<open>
  Claim C9. Decoration builds the tables once and puts \<^verbatim>\<open>param_to_default\<close> into the
  store. Every invocation of the wrapper, in any number and with any arguments, writes
  only into the copy it made: the object at the address of \<^verbatim>\<open>param_to_default\<close>, and
  every other object that was in the store before, is the same after the invocations as
  before, and each invocation prints and returns what the wrapper does on the tables as
  they were built. The name lists, the two \<^verbatim>\<open>*\<close> names and \<^verbatim>\<open>pad_length\<close> are values of
  the closure, which no statement of the wrapper assigns.
\<close>

theorem static_tables_never_mutated:
  assumes "store_debug_calls c h0 = Inr (w, pd, h)"
  shows "debug_calls c = Inr w
     \<and> table_at w pd h
     \<and> fst (store_invocations w pd cs h)
         = map (\<lambda>(rt, pargs, kwargs). wrapper w rt pargs kwargs) cs
     \<and> table_at w pd (snd (store_invocations w pd cs h))
     \<and> (\<forall>a < length h. snd (store_invocations w pd cs h) ! a = h ! a)"
proof -
  from assms have dec: "debug_calls c = Inr w" and h: "h = h0 @ [param_to_default (tables w)]"
    and pd: "pd = length h0"
    by (auto simp: store_debug_calls_def alloc_def split: sum.splits)
  then have t: "table_at w pd h" by (simp add: table_at_def)
  from store_invocations_eq [OF t, of cs] obtain h' where
    outs: "fst (store_invocations w pd cs h)
             = map (\<lambda>(rt, pargs, kwargs). wrapper w rt pargs kwargs) cs"
    and h': "snd (store_invocations w pd cs h) = h @ h'" by blast
  from t h' have "table_at w pd (snd (store_invocations w pd cs h))"
    by (simp add: table_at_append)
  moreover from h' have "\<forall>a < length h. snd (store_invocations w pd cs h) ! a = h ! a"
    by (simp add: nth_append)
  ultimately show ?thesis using dec t outs by simp
qed

theorem static_tables_never_mutated_witness:
  "\<exists>w pd h. store_debug_calls (def_f sig_a_b0 return_a) [] = Inr (w, pd, h)
     \<and> h ! pd = [(''a'', ParameterEmpty, ''d''), (''b'', PyInt 0, ''d'')]
     \<and> snd (store_invocations w pd
            [(example_runtime, [PyInt 5], []), (example_runtime, [], [(''a'', PyInt 1)])] h) ! pd
         = [(''a'', ParameterEmpty, ''d''), (''b'', PyInt 0, ''d'')]
     \<and> snd (store_invocations w pd
            [(example_runtime, [PyInt 5], []), (example_runtime, [], [(''a'', PyInt 1)])] h)
         = [[(''a'', ParameterEmpty, ''d''), (''b'', PyInt 0, ''d'')],
            [(''a'', PyInt 5, ''p''), (''b'', PyInt 0, ''d'')],
            [(''a'', PyInt 1, ''k''), (''b'', PyInt 0, ''d'')]]"
proof -
  let ?cs = "[(example_runtime, [PyInt 5], []), (example_runtime, [], [(''a'', PyInt 1)])]"
  let ?pd = "[(''a'', ParameterEmpty, ''d''), (''b'', PyInt 0, ''d'')]"
  obtain w pd h where dec: "store_debug_calls (def_f sig_a_b0 return_a) [] = Inr (w, pd, h)"
    and pd: "pd = 0" and h: "h = [?pd]" and tw: "param_to_default (tables w) = ?pd"
    and names: "parg_names (tables w) = [''a'', ''b'']" "kwarg_names (tables w) = [''a'', ''b'']"
    by (simp add: store_debug_calls_def alloc_def decorate_simps sig_a_b0_def Let_def)
  note r = static_tables_never_mutated [OF dec, of ?cs]
  then have "table_at w pd (snd (store_invocations w pd ?cs h))" by simp
  then have kept: "snd (store_invocations w pd ?cs h) ! pd = ?pd"
    by (simp add: table_at_def tw)
  have all: "snd (store_invocations w pd ?cs h)
         = [?pd, [(''a'', PyInt 5, ''p''), (''b'', PyInt 0, ''d'')],
            [(''a'', PyInt 1, ''k''), (''b'', PyInt 0, ''d'')]]"
    by (simp add: pd h tw names store_wrapper_def store_bind_arguments_def dict_copy_def
          alloc_def store_setitem_def itertools_product_def split_beta Let_def)
  from dec h pd kept all show ?thesis by auto
qed

subsection \<open>The examples, evaluated\<close>

text \<open>
  Claim C8. For \<^verbatim>\<open>def f(a, /, b, *, c, d="x")\<close>, decorated and called as
  \<^verbatim>\<open>f(1, 2, c=3)\<close>, the wrapper prints, after the three header lines, the four lines
  \<open>(p) a\<close> with the value 1, \<open>(p) b\<close> with 2, \<open>(k) c\<close> with 3 and \<open>(d) d\<close> with the
  string \<open>x\<close>, in this order and nothing more, each value written by \<^verbatim>\<open>safe_repr\<close>;
  then it calls \<^verbatim>\<open>f\<close> with the same arguments.
\<close>

theorem example_report:
  "decorate_and_call (def_f sig_a_b_c_d body) rt [PyInt 1, PyInt 2] [(''c'', PyInt 3)] =
   Inr \<lparr>printed =
          header_lines (def_f sig_a_b_c_d body) (get_caller_info (frames_to_skip rt) (stack rt))
          @ [''(p) a: '' @ safe_repr rt (PyInt 1) True,
             ''(p) b: '' @ safe_repr rt (PyInt 2) True,
             ''(k) c: '' @ safe_repr rt (PyInt 3) True,
             ''(d) d: '' @ safe_repr rt (PyStr ''x'') True],
        calls = [([PyInt 1, PyInt 2], [(''c'', PyInt 3)])],
        result = body [PyInt 1, PyInt 2] [(''c'', PyInt 3)]\<rparr>"
  by (simp add: decorate_and_call_def decorate_simps wrapper_simps sig_a_b_c_d_def Let_def)

theorem example_report_witness:
  "decorate_and_call (def_f sig_a_b_c_d return_a) example_runtime [PyInt 1, PyInt 2]
     [(''c'', PyInt 3)] =
   Inr \<lparr>printed =
          [[], BOLD_CODE @ UNDERLINE_CODE @ ''__main__.f'' @ END_CODE,
           ''Called by main at app.py:12 '',
           ''(p) a: 1'', ''(p) b: 2'', ''(k) c: 3'', ''(d) d: '' @ [CHR 0x27] @ ''x'' @ [CHR 0x27]],
        calls = [([PyInt 1, PyInt 2], [(''c'', PyInt 3)])],
        result = Inr (PyInt 1)\<rparr>"
  using example_report [of return_a example_runtime]
  by (simp add: runtime_simps def_f_def return_a_def)

end
